theory Spec2Isabelle
  imports Complex_Main
begin

section \<open>Python runtime: exceptions, strings and integer conversion\<close>

text \<open>
  Exceptions are values. A function that can raise returns \<open>error + 'a\<close>, with
  \<open>Inl\<close> for the exception. \<open>ExternalError\<close> stands for any failure of the chain
  RPC or of the metadata HTTP service, \<open>ZeroDivisionError\<close> for the signal of a
  decimal division by zero.

  A \<open>char\<close> is read as a Python code point below 256, so a \<open>string\<close> is a Python
  \<open>str\<close> over Latin-1. The classifications below are the ones of CPython for these
  code points. The optional limit on the number of decimal digits of an integer
  conversion (\<open>sys.int_max_str_digits\<close>) is not part of the model.
\<close>

datatype error =
    ValueError
  | TypeError
  | AttributeError
  | OverflowError
  | IntegrityError
  | ZeroDivisionError
  | ExternalError

text \<open>\<open>str.isspace\<close> on one character: what \<open>str.strip()\<close> removes.\<close>

definition str_isspace :: "char \<Rightarrow> bool" where
  "str_isspace c = (c \<in> set [CHR 0x09, CHR 0x0A, CHR 0x0B, CHR 0x0C, CHR 0x0D,
                               CHR 0x1C, CHR 0x1D, CHR 0x1E, CHR 0x1F, CHR 0x20,
                               CHR 0x85, CHR 0xA0])"

text \<open>
  The whitespace \<open>int(...)\<close> skips around a numeral: the ASCII whitespace of C, and
  the two non-ASCII spaces, which the conversion first turns into blanks.
\<close>

definition int_isspace :: "char \<Rightarrow> bool" where
  "int_isspace c = (c \<in> set [CHR 0x09, CHR 0x0A, CHR 0x0B, CHR 0x0C, CHR 0x0D, CHR 0x20,
                               CHR 0x85, CHR 0xA0])"

text \<open>\<open>s.strip(chars)\<close>: drop the characters of the class at both ends.\<close>

definition strip_chars :: "(char \<Rightarrow> bool) \<Rightarrow> string \<Rightarrow> string" where
  "strip_chars p s = rev (dropWhile p (rev (dropWhile p s)))"

definition startswith :: "string \<Rightarrow> string \<Rightarrow> bool" where
  "startswith s p = (take (length p) s = p)"

text \<open>
  \<open>str.isdigit\<close>: true on a non-empty string of digit characters; below 256 these
  are the ten decimal digits and the superscripts two, three and one.
\<close>

definition isdigit_char :: "char \<Rightarrow> bool" where
  "isdigit_char c = (c \<in> set ''0123456789'' \<or> c \<in> set [CHR 0xB2, CHR 0xB3, CHR 0xB9])"

definition isdigit :: "string \<Rightarrow> bool" where
  "isdigit s = (s \<noteq> [] \<and> list_all isdigit_char s)"

text \<open>The value of a character as a digit in bases up to 36; \<open>None\<close> when it is none.\<close>

definition digit_value :: "char \<Rightarrow> nat option" where
  "digit_value c =
     (let n = (of_char c :: nat) in
      if 48 \<le> n \<and> n \<le> 57 then Some (n - 48)
      else if 97 \<le> n \<and> n \<le> 122 then Some (n - 87)
      else if 65 \<le> n \<and> n \<le> 90 then Some (n - 55)
      else None)"

text \<open>
  The digit scan of \<open>int(s, base)\<close>: digits below the base, single underscores
  between them. It stops at the first other character and returns the value read
  so far with the unread rest; two underscores in a row or an underscore at the end
  of the scan are an error (\<open>None\<close>).
\<close>

fun scan_digits :: "nat \<Rightarrow> char option \<Rightarrow> nat \<Rightarrow> string \<Rightarrow> (nat \<times> string) option" where
  "scan_digits base prev acc [] =
     (if prev = Some (CHR ''_'') then None else Some (acc, []))"
| "scan_digits base prev acc (c # cs) =
     (if c = CHR ''_'' then
        (if prev = Some (CHR ''_'') then None else scan_digits base (Some c) acc cs)
      else
        (case digit_value c of
           Some d \<Rightarrow>
             if d < base then scan_digits base (Some c) (acc * base + d) cs
             else if prev = Some (CHR ''_'') then None else Some (acc, c # cs)
         | None \<Rightarrow> if prev = Some (CHR ''_'') then None else Some (acc, c # cs)))"

text \<open>
  \<open>int(s, base)\<close> for base 10 and base 16: optional whitespace, an optional sign,
  for base 16 an optional \<open>0x\<close> prefix (which one underscore may follow), at least
  one digit, optional whitespace. Everything else raises \<open>ValueError\<close>.
\<close>

definition py_int :: "nat \<Rightarrow> string \<Rightarrow> error + int" where
  "py_int base s =
     (let s1 = dropWhile int_isspace s;
          neg = startswith s1 ''-'';
          s2 = (if startswith s1 ''+'' \<or> startswith s1 ''-'' then drop 1 s1 else s1);
          s3 = (if base = 16 \<and> (startswith s2 ''0x'' \<or> startswith s2 ''0X'')
                then (if startswith (drop 2 s2) ''_'' then drop 3 s2 else drop 2 s2)
                else s2)
      in if startswith s3 ''_'' then Inl ValueError
         else (case scan_digits base None 0 s3 of
                 None \<Rightarrow> Inl ValueError
               | Some (n, rest) \<Rightarrow>
                   if rest = s3 then Inl ValueError
                   else if dropWhile int_isspace rest \<noteq> [] then Inl ValueError
                   else Inr (if neg then - int n else int n)))"

text \<open>\<open>str(n)\<close> of an integer: its decimal numeral, with a minus sign when negative.\<close>

definition digit_char :: "nat \<Rightarrow> char" where
  "digit_char d = ''0123456789abcdef'' ! d"

fun str_nat :: "nat \<Rightarrow> string" where
  "str_nat n = (if n < 10 then [digit_char n] else str_nat (n div 10) @ [digit_char (n mod 10)])"

definition str_int :: "int \<Rightarrow> string" where
  "str_int i = (if i < 0 then CHR ''-'' # str_nat (nat (- i)) else str_nat (nat i))"

text \<open>The lower-case hexadecimal digits of a natural number, as \<open>hex(n)[2:]\<close> gives them.\<close>

fun hex_nat :: "nat \<Rightarrow> string" where
  "hex_nat n = (if n < 16 then [digit_char n] else hex_nat (n div 16) @ [digit_char (n mod 16)])"


section \<open>Token ids (db/store.py)\<close>

text \<open>
  \<open>normalize_token_id\<close>: \<open>None\<close> stays \<open>None\<close>; a string is stripped of outer
  whitespace, then of outer double quotes, then of outer single quotes; an empty rest
  gives \<open>None\<close>; a rest starting with \<open>0x\<close> is read in base 16 and a rest of digit
  characters in base 10, both written back in decimal; any other rest is returned as
  it is. The two integer conversions can raise \<open>ValueError\<close>.
\<close>

definition normalize_token_id :: "string option \<Rightarrow> error + string option" where
  "normalize_token_id token_id =
     (case token_id of
        None \<Rightarrow> Inr None
      | Some s \<Rightarrow>
          (let v = strip_chars (\<lambda>c. c = CHR 0x27)
                     (strip_chars (\<lambda>c. c = CHR 0x22) (strip_chars str_isspace s))
           in if v = [] then Inr None
              else if startswith v ''0x'' then
                (case py_int 16 v of Inl e \<Rightarrow> Inl e | Inr n \<Rightarrow> Inr (Some (str_int n)))
              else if isdigit v then
                (case py_int 10 v of Inl e \<Rightarrow> Inl e | Inr n \<Rightarrow> Inr (Some (str_int n)))
              else Inr (Some v)))"

text \<open>Normalizing the result of a normalization; an exception of the first call propagates.\<close>

definition normalize_twice :: "string option \<Rightarrow> error + string option" where
  "normalize_twice x = (case normalize_token_id x of Inl e \<Rightarrow> Inl e | Inr r \<Rightarrow> normalize_token_id r)"

text \<open>A string that neither begins nor ends with whitespace or a double quote.\<close>

definition clean_ends :: "string \<Rightarrow> bool" where
  "clean_ends v = (v = [] \<or> (\<not> str_isspace (hd v) \<and> \<not> str_isspace (last v)
                               \<and> hd v \<noteq> CHR 0x22 \<and> last v \<noteq> CHR 0x22))"

text \<open>A numeral: a string of digits of the base, without underscores.\<close>

definition numeral_of :: "nat \<Rightarrow> string \<Rightarrow> bool" where
  "numeral_of base ds = (\<forall>c \<in> set ds. c \<noteq> CHR ''_'' \<and> (\<exists>d. digit_value c = Some d \<and> d < base))"

definition numeral_value :: "nat \<Rightarrow> nat \<Rightarrow> string \<Rightarrow> nat" where
  "numeral_value base acc ds = foldl (\<lambda>a c. a * base + the (digit_value c)) acc ds"


section \<open>The store (db/schema.py, db/store.py)\<close>

text \<open>
  A dictionary entry that the code reads with a default: the key is missing, or it
  holds \<open>None\<close>, or it holds a value. Entries read with a plain \<open>get\<close> are options
  (\<open>None\<close> for a missing key and for the value \<open>None\<close> alike). Columns are typed as
  the schema declares them; a nullable column is an option.
\<close>

datatype 'a pyfield = Missing | PyNone | Val 'a

text \<open>\<open>int(bool(payload.get(key, default)))\<close> for a flag.\<close>

definition flag_int :: "bool \<Rightarrow> bool pyfield \<Rightarrow> int" where
  "flag_int dflt f = (case f of Missing \<Rightarrow> (if dflt then 1 else 0) | PyNone \<Rightarrow> 0
                      | Val b \<Rightarrow> (if b then 1 else 0))"

text \<open>\<open>str(t.get(key, "0"))\<close> for a text entry.\<close>

definition text_or_zero :: "string pyfield \<Rightarrow> string" where
  "text_or_zero f = (case f of Missing \<Rightarrow> ''0'' | PyNone \<Rightarrow> ''None'' | Val s \<Rightarrow> s)"

text \<open>\<open>payload.get("status", "unknown")\<close>.\<close>

definition status_or_unknown :: "string pyfield \<Rightarrow> string option" where
  "status_or_unknown f = (case f of Missing \<Rightarrow> Some ''unknown'' | PyNone \<Rightarrow> None | Val s \<Rightarrow> Some s)"

record event_row =
  ev_id :: int
  ev_event_id :: "string option"
  ev_slug :: string
  ev_title :: "string option"
  ev_description :: "string option"
  ev_neg_risk :: int
  ev_active :: int
  ev_closed :: int
  ev_created_at :: "string option"
  ev_updated_at :: "string option"

record market_row =
  mk_id :: int
  mk_event_id :: "int option"
  mk_slug :: string
  mk_title :: "string option"
  mk_description :: "string option"
  mk_condition_id :: "string option"
  mk_question_id :: "string option"
  mk_oracle :: "string option"
  mk_collateral_token :: "string option"
  mk_yes_token_id :: "string option"
  mk_no_token_id :: "string option"
  mk_enable_neg_risk :: int
  mk_status :: "string option"
  mk_created_at :: "string option"
  mk_updated_at :: "string option"

text \<open>
  The parameter tuple of the trade insert, and the stored row: the same columns with
  the row id and the creation time. The three \<open>NOT NULL\<close> columns are options in the
  tuple, since the statement is what rejects a \<open>NULL\<close> there.
\<close>

record trade_params =
  tr_market_id :: "int option"
  tr_tx_hash :: "string option"
  tr_log_index :: "int option"
  tr_block_number :: "int option"
  tr_block_hash :: "string option"
  tr_timestamp :: "string option"
  tr_maker :: "string option"
  tr_taker :: "string option"
  tr_side :: "string option"
  tr_outcome :: "string option"
  tr_price :: "string option"
  tr_size :: "string option"
  tr_token_id :: "string option"
  tr_maker_asset_id :: "string option"
  tr_taker_asset_id :: "string option"
  tr_maker_amount_filled :: "string option"
  tr_taker_amount_filled :: "string option"
  tr_exchange_address :: "string option"

record trade_row = trade_params +
  tr_id :: int
  tr_created_at :: string

record sync_row =
  sy_last_block :: int
  sy_updated_at :: string

text \<open>
  The tables, with the \<open>AUTOINCREMENT\<close> counters of \<open>sqlite_sequence\<close>. A connection
  holds the tables as its open transaction sees them, the tables as last committed, and
  the counter \<open>total_changes\<close> of rows inserted or updated through it.
\<close>

record tables =
  events :: "event_row list"
  markets :: "market_row list"
  trades :: "trade_row list"
  sync_state :: "string \<rightharpoonup> sync_row"
  seq_events :: int
  seq_markets :: int
  seq_trades :: int

record conn =
  live :: tables
  committed :: tables
  total_changes :: nat

definition empty_tables :: tables where
  "empty_tables = \<lparr>events = [], markets = [], trades = [], sync_state = Map.empty,
                    seq_events = 0, seq_markets = 0, seq_trades = 0\<rparr>"

definition init_db :: conn where
  "init_db = \<lparr>live = empty_tables, committed = empty_tables, total_changes = 0\<rparr>"

definition commit :: "conn \<Rightarrow> conn" where
  "commit c = c\<lparr>committed := live c\<rparr>"

text \<open>Binding a Python integer to a statement raises \<open>OverflowError\<close> outside 64 bits.\<close>

definition sqlite_int :: "int \<Rightarrow> bool" where
  "sqlite_int i = (- (2 ^ 63) \<le> i \<and> i < 2 ^ 63)"

definition sqlite_int_opt :: "int option \<Rightarrow> bool" where
  "sqlite_int_opt x = (case x of None \<Rightarrow> True | Some i \<Rightarrow> sqlite_int i)"

text \<open>The row id an \<open>AUTOINCREMENT\<close> table generates: above the counter and above every row.\<close>

definition new_rowid :: "int \<Rightarrow> int list \<Rightarrow> int" where
  "new_rowid seq ids = max seq (foldr max ids 0) + 1"

text \<open>Changing the first row of a kind in a table, as the update branch of an upsert does.\<close>

fun update_first :: "('a \<Rightarrow> bool) \<Rightarrow> ('a \<Rightarrow> 'a) \<Rightarrow> 'a list \<Rightarrow> 'a list" where
  "update_first P f [] = []"
| "update_first P f (x # xs) = (if P x then f x # xs else x # update_first P f xs)"

subsection \<open>Events\<close>

record event_payload =
  ep_event_id :: "string option"
  ep_slug :: "string option"
  ep_title :: "string option"
  ep_description :: "string option"
  ep_neg_risk :: "bool pyfield"
  ep_active :: "bool pyfield"
  ep_closed :: "bool pyfield"
  ep_created_at :: "string option"

text \<open>\<open>UNIQUE\<close> on a nullable column: a \<open>NULL\<close> never conflicts.\<close>

definition event_id_taken :: "string option \<Rightarrow> event_row list \<Rightarrow> bool" where
  "event_id_taken eid rows = (case eid of None \<Rightarrow> False
                              | Some e \<Rightarrow> list_ex (\<lambda>r. ev_event_id r = Some e) rows)"

text \<open>
  The statement of \<open>upsert_event\<close>: \<open>INSERT ... ON CONFLICT(slug) DO UPDATE\<close>. A
  \<open>NULL\<close> slug fails the \<open>NOT NULL\<close> constraint. A row with the slug is updated in
  its mutable columns; otherwise a row is inserted. Either way the external event id
  must stay unique among the other rows, or the statement fails and changes nothing.
\<close>

definition updated_event :: "string \<Rightarrow> event_payload \<Rightarrow> event_row \<Rightarrow> event_row" where
  "updated_event now payload old =
     old\<lparr>ev_event_id := ep_event_id payload,
         ev_title := ep_title payload,
         ev_description := ep_description payload,
         ev_neg_risk := flag_int False (ep_neg_risk payload),
         ev_active := flag_int True (ep_active payload),
         ev_closed := flag_int False (ep_closed payload),
         ev_updated_at := Some now\<rparr>"

definition sql_upsert_event :: "tables \<Rightarrow> string \<Rightarrow> event_payload \<Rightarrow> error + tables" where
  "sql_upsert_event db now payload =
     (case ep_slug payload of
        None \<Rightarrow> Inl IntegrityError
      | Some slug \<Rightarrow>
          (let rowid = new_rowid (seq_events db) (map ev_id (events db)) in
           case find (\<lambda>r. ev_slug r = slug) (events db) of
             Some old \<Rightarrow>
               if event_id_taken (ep_event_id payload)
                    (filter (\<lambda>r. ev_id r \<noteq> ev_id old) (events db))
               then Inl IntegrityError
               else
                 Inr (db\<lparr>events := update_first (\<lambda>r. ev_slug r = slug)
                                          (updated_event now payload) (events db),
                             seq_events := rowid\<rparr>)
           | None \<Rightarrow>
               if event_id_taken (ep_event_id payload) (events db) then Inl IntegrityError
               else
                 (let new = \<lparr>ev_id = rowid,
                              ev_event_id = ep_event_id payload,
                              ev_slug = slug,
                              ev_title = ep_title payload,
                              ev_description = ep_description payload,
                              ev_neg_risk = flag_int False (ep_neg_risk payload),
                              ev_active = flag_int True (ep_active payload),
                              ev_closed = flag_int False (ep_closed payload),
                              ev_created_at = ep_created_at payload,
                              ev_updated_at = Some now\<rparr>
                  in Inr (db\<lparr>events := events db @ [new], seq_events := rowid\<rparr>))))"

text \<open>
  \<open>upsert_event\<close>: the statement, then the row id read back by slug, then the commit.
  \<open>now\<close> is what \<open>_utc_now_iso()\<close> returns in this call.
\<close>

definition upsert_event :: "conn \<Rightarrow> string \<Rightarrow> event_payload \<Rightarrow> (error + int) \<times> conn" where
  "upsert_event c now payload =
     (case sql_upsert_event (live c) now payload of
        Inl e \<Rightarrow> (Inl e, c)
      | Inr db \<Rightarrow>
          (let c1 = c\<lparr>live := db, total_changes := total_changes c + 1\<rparr> in
           case find (\<lambda>r. Some (ev_slug r) = ep_slug payload) (events db) of
             None \<Rightarrow> (Inl TypeError, c1)
           | Some row \<Rightarrow> (Inr (ev_id row), commit c1)))"

subsection \<open>Markets\<close>

record market_payload =
  mp_event_id :: "int option"
  mp_slug :: "string option"
  mp_title :: "string option"
  mp_description :: "string option"
  mp_condition_id :: "string option"
  mp_question_id :: "string option"
  mp_oracle :: "string option"
  mp_collateral_token :: "string option"
  mp_yes_token_id :: "string option"
  mp_no_token_id :: "string option"
  mp_enable_neg_risk :: "bool pyfield"
  mp_status :: "string pyfield"
  mp_created_at :: "string option"

text \<open>
  The statement of \<open>upsert_market\<close>, with the two token ids already normalized. The
  only uniqueness constraint of the table is the one on the slug.
\<close>

definition updated_market ::
    "string \<Rightarrow> market_payload \<Rightarrow> string option \<Rightarrow> string option \<Rightarrow> market_row \<Rightarrow> market_row" where
  "updated_market now payload yes no old =
     old\<lparr>mk_event_id := mp_event_id payload,
         mk_title := mp_title payload,
         mk_description := mp_description payload,
         mk_condition_id := mp_condition_id payload,
         mk_question_id := mp_question_id payload,
         mk_oracle := mp_oracle payload,
         mk_collateral_token := mp_collateral_token payload,
         mk_yes_token_id := yes,
         mk_no_token_id := no,
         mk_enable_neg_risk := flag_int False (mp_enable_neg_risk payload),
         mk_status := status_or_unknown (mp_status payload),
         mk_updated_at := Some now\<rparr>"

definition sql_upsert_market ::
    "tables \<Rightarrow> string \<Rightarrow> market_payload \<Rightarrow> string option \<Rightarrow> string option \<Rightarrow> error + tables" where
  "sql_upsert_market db now payload yes no =
     (if \<not> sqlite_int_opt (mp_event_id payload) then Inl OverflowError
      else case mp_slug payload of
        None \<Rightarrow> Inl IntegrityError
      | Some slug \<Rightarrow>
          (let rowid = new_rowid (seq_markets db) (map mk_id (markets db)) in
           case find (\<lambda>r. mk_slug r = slug) (markets db) of
             Some old \<Rightarrow>
               Inr (db\<lparr>markets := update_first (\<lambda>r. mk_slug r = slug)
                                          (updated_market now payload yes no) (markets db),
                           seq_markets := rowid\<rparr>)
           | None \<Rightarrow>
               (let new = \<lparr>mk_id = rowid,
                            mk_event_id = mp_event_id payload,
                            mk_slug = slug,
                            mk_title = mp_title payload,
                            mk_description = mp_description payload,
                            mk_condition_id = mp_condition_id payload,
                            mk_question_id = mp_question_id payload,
                            mk_oracle = mp_oracle payload,
                            mk_collateral_token = mp_collateral_token payload,
                            mk_yes_token_id = yes,
                            mk_no_token_id = no,
                            mk_enable_neg_risk = flag_int False (mp_enable_neg_risk payload),
                            mk_status = status_or_unknown (mp_status payload),
                            mk_created_at = mp_created_at payload,
                            mk_updated_at = Some now\<rparr>
                in Inr (db\<lparr>markets := markets db @ [new], seq_markets := rowid\<rparr>))))"

text \<open>
  \<open>upsert_market\<close>: the token ids are normalized while the parameters are built (an
  exception there leaves the store untouched), then the statement runs, the row id is
  read back by slug and the transaction is committed.
\<close>

definition upsert_market :: "conn \<Rightarrow> string \<Rightarrow> market_payload \<Rightarrow> (error + int) \<times> conn" where
  "upsert_market c now payload =
     (case normalize_token_id (mp_yes_token_id payload) of
        Inl e \<Rightarrow> (Inl e, c)
      | Inr yes \<Rightarrow>
     (case normalize_token_id (mp_no_token_id payload) of
        Inl e \<Rightarrow> (Inl e, c)
      | Inr no \<Rightarrow>
     (case sql_upsert_market (live c) now payload yes no of
        Inl e \<Rightarrow> (Inl e, c)
      | Inr db \<Rightarrow>
          (let c1 = c\<lparr>live := db, total_changes := total_changes c + 1\<rparr> in
           case find (\<lambda>r. Some (mk_slug r) = mp_slug payload) (markets db) of
             None \<Rightarrow> (Inl TypeError, c1)
           | Some row \<Rightarrow> (Inr (mk_id row), commit c1)))))"

text \<open>
  \<open>fetch_market_by_token_id\<close>: the first row of the rows whose YES or NO token id is
  the normalized id. SQL leaves the order of these rows open; the model takes the
  order of the engine's plan for this query (the matches of the index on the YES
  column in row order, then those of the index on the NO column).
\<close>

definition rows_by_token_id :: "tables \<Rightarrow> string \<Rightarrow> market_row list" where
  "rows_by_token_id db tok =
     filter (\<lambda>r. mk_yes_token_id r = Some tok) (markets db)
     @ filter (\<lambda>r. mk_no_token_id r = Some tok \<and> mk_yes_token_id r \<noteq> Some tok) (markets db)"

definition fetch_market_by_token_id :: "conn \<Rightarrow> string option \<Rightarrow> error + market_row option" where
  "fetch_market_by_token_id c token_id =
     (case normalize_token_id token_id of
        Inl e \<Rightarrow> Inl e
      | Inr None \<Rightarrow> Inr None
      | Inr (Some tok) \<Rightarrow>
          (case rows_by_token_id (live c) tok of [] \<Rightarrow> Inr None | row # _ \<Rightarrow> Inr (Some row)))"


subsection \<open>Trades\<close>

text \<open>
  A trade dictionary, as the decoder builds it and the indexing run completes it. The
  entries are typed as their producers type them.
\<close>

record trade =
  t_order_hash :: "string option"
  t_maker :: "string option"
  t_taker :: "string option"
  t_maker_asset_id :: "int option"
  t_taker_asset_id :: "int option"
  t_maker_amount_filled :: "int option"
  t_taker_amount_filled :: "int option"
  t_fee :: "int option"
  t_side :: "string option"
  t_token_id :: "string option"
  t_price :: "string pyfield"
  t_size :: "string pyfield"
  t_tx_hash :: "string option"
  t_log_index :: "int option"
  t_block_number :: "int option"
  t_block_hash :: "string option"
  t_exchange_address :: "string option"
  t_market_id :: "int option"
  t_outcome :: "string option"
  t_timestamp :: "string option"

text \<open>The parameter tuple of one trade; normalizing its token id can raise.\<close>

definition trade_tuple :: "trade \<Rightarrow> error + trade_params" where
  "trade_tuple t =
     (case normalize_token_id (t_token_id t) of
        Inl e \<Rightarrow> Inl e
      | Inr tok \<Rightarrow>
          Inr \<lparr>tr_market_id = t_market_id t,
               tr_tx_hash = t_tx_hash t,
               tr_log_index = t_log_index t,
               tr_block_number = t_block_number t,
               tr_block_hash = t_block_hash t,
               tr_timestamp = t_timestamp t,
               tr_maker = t_maker t,
               tr_taker = t_taker t,
               tr_side = t_side t,
               tr_outcome = t_outcome t,
               tr_price = Some (text_or_zero (t_price t)),
               tr_size = Some (text_or_zero (t_size t)),
               tr_token_id = tok,
               tr_maker_asset_id = map_option str_int (t_maker_asset_id t),
               tr_taker_asset_id = map_option str_int (t_taker_asset_id t),
               tr_maker_amount_filled = map_option str_int (t_maker_amount_filled t),
               tr_taker_amount_filled = map_option str_int (t_taker_amount_filled t),
               tr_exchange_address = t_exchange_address t\<rparr>)"

text \<open>The list comprehension over the batch: the first exception ends it.\<close>

fun trade_tuples :: "trade list \<Rightarrow> error + trade_params list" where
  "trade_tuples [] = Inr []"
| "trade_tuples (t # ts) =
     (case trade_tuple t of
        Inl e \<Rightarrow> Inl e
      | Inr p \<Rightarrow> (case trade_tuples ts of Inl e \<Rightarrow> Inl e | Inr ps \<Rightarrow> Inr (p # ps)))"

text \<open>The de-duplication key of a stored trade or of a parameter tuple.\<close>

definition trade_key :: "'a trade_params_scheme \<Rightarrow> string option \<times> int option" where
  "trade_key r = (tr_tx_hash r, tr_log_index r)"

text \<open>
  One execution of \<open>INSERT OR IGNORE INTO trades\<close>. An integer outside 64 bits
  cannot be bound (\<open>OverflowError\<close>). A \<open>NULL\<close> in a \<open>NOT NULL\<close> column, or a key
  (tx_hash, log_index) that a stored row has, makes the statement skip the row without
  an error. In both cases the row id that was generated is consumed. \<open>ts\<close> is the
  \<open>CURRENT_TIMESTAMP\<close> default of the creation time.
\<close>

definition sql_insert_trade :: "conn \<Rightarrow> string \<Rightarrow> trade_params \<Rightarrow> error + conn" where
  "sql_insert_trade c ts p =
     (if \<not> (sqlite_int_opt (tr_market_id p) \<and> sqlite_int_opt (tr_log_index p)
             \<and> sqlite_int_opt (tr_block_number p))
      then Inl OverflowError
      else
        (let db = live c;
             rowid = new_rowid (seq_trades db) (map tr_id (trades db)) in
         if tr_market_id p = None \<or> tr_tx_hash p = None \<or> tr_log_index p = None
            \<or> trade_key p \<in> set (map trade_key (trades db))
         then Inr (c\<lparr>live := db\<lparr>seq_trades := rowid\<rparr>\<rparr>)
         else Inr (c\<lparr>live := db\<lparr>trades := trades db @ [trade_params.extend p
                                          \<lparr>tr_id = rowid, tr_created_at = ts\<rparr>],
                                      seq_trades := rowid\<rparr>,
                       total_changes := total_changes c + 1\<rparr>)))"

text \<open>
  \<open>executemany\<close>: the statement once per tuple, in order. An exception stops it and
  leaves the rows inserted so far in the open transaction.
\<close>

fun executemany_insert_trades :: "conn \<Rightarrow> string \<Rightarrow> trade_params list \<Rightarrow> error option \<times> conn" where
  "executemany_insert_trades c ts [] = (None, c)"
| "executemany_insert_trades c ts (p # ps) =
     (case sql_insert_trade c ts p of
        Inl e \<Rightarrow> (Some e, c)
      | Inr c1 \<Rightarrow> executemany_insert_trades c1 ts ps)"

text \<open>
  \<open>insert_trades\<close>: nothing to do on an empty batch; otherwise the tuples are built,
  inserted, the transaction is committed, and the growth of \<open>total_changes\<close> is
  returned.
\<close>

definition insert_trades :: "conn \<Rightarrow> string \<Rightarrow> trade list \<Rightarrow> (error + int) \<times> conn" where
  "insert_trades c ts batch =
     (if batch = [] then (Inr 0, c)
      else
        (let before = total_changes c in
         case trade_tuples batch of
           Inl e \<Rightarrow> (Inl e, c)
         | Inr ps \<Rightarrow>
             (case executemany_insert_trades c ts ps of
                (Some e, c1) \<Rightarrow> (Inl e, c1)
              | (None, c1) \<Rightarrow>
                  (let c2 = commit c1 in (Inr (int (total_changes c2) - int before), c2)))))"

subsection \<open>The sync cursor\<close>

text \<open>
  \<open>update_sync_state\<close>: insert the row of the key or overwrite its block number and
  time, then commit. \<open>get_sync_state\<close>: the block number of the key, \<open>None\<close> when
  the key was never written.
\<close>

definition update_sync_state :: "conn \<Rightarrow> string \<Rightarrow> string \<Rightarrow> int \<Rightarrow> (error + unit) \<times> conn" where
  "update_sync_state c ts key last_block =
     (if \<not> sqlite_int last_block then (Inl OverflowError, c)
      else
        (let db = live c;
             db1 = db\<lparr>sync_state := (sync_state db)(key \<mapsto> \<lparr>sy_last_block = last_block, sy_updated_at = ts\<rparr>)\<rparr>
         in (Inr (), commit (c\<lparr>live := db1, total_changes := total_changes c + 1\<rparr>))))"

definition get_sync_state :: "conn \<Rightarrow> string \<Rightarrow> int option" where
  "get_sync_state c key = map_option sy_last_block (sync_state (live c) key)"


subsection \<open>Auxiliary notions for the store\<close>

text \<open>
  A tuple that can be bound, a tuple with a \<open>NULL\<close> in a \<open>NOT NULL\<close> column, and
  the keys of the stored trades.
\<close>

definition bindable :: "trade_params \<Rightarrow> bool" where
  "bindable p = (sqlite_int_opt (tr_market_id p) \<and> sqlite_int_opt (tr_log_index p)
                 \<and> sqlite_int_opt (tr_block_number p))"

definition null_key :: "trade_params \<Rightarrow> bool" where
  "null_key p = (tr_market_id p = None \<or> tr_tx_hash p = None \<or> tr_log_index p = None)"

definition stored_keys :: "conn \<Rightarrow> (string option \<times> int option) set" where
  "stored_keys c = set (map trade_key (trades (live c)))"


text \<open>The trade of the end-to-end scenario of the specification, resolved to market 1.\<close>

definition example_trade :: trade where
  "example_trade =
     \<lparr>t_order_hash = Some ''0x01'', t_maker = Some ''0xaa'', t_taker = Some ''0xbb'',
      t_maker_asset_id = Some 0, t_taker_asset_id = Some 555,
      t_maker_amount_filled = Some 1000000, t_taker_amount_filled = Some 2000000,
      t_fee = Some 0, t_side = Some ''BUY'', t_token_id = Some ''555'',
      t_price = Val ''0.5'', t_size = Val ''2'', t_tx_hash = Some ''0xabc'',
      t_log_index = Some 7, t_block_number = Some 100, t_block_hash = Some ''0xdef'',
      t_exchange_address = Some ''0xee'', t_market_id = Some 1, t_outcome = Some ''YES'',
      t_timestamp = Some ''2024-01-01T00:00:00''\<rparr>"


definition example_market :: market_payload where
  "example_market =
     \<lparr>mp_event_id = Some 1, mp_slug = Some ''will-a-win'', mp_title = Some ''Will A win?'',
      mp_description = None, mp_condition_id = Some ''0xc0'', mp_question_id = None,
      mp_oracle = None, mp_collateral_token = Some ''0x27'', mp_yes_token_id = Some ''555'',
      mp_no_token_id = Some ''0x22c'', mp_enable_neg_risk = Val False,
      mp_status = Missing, mp_created_at = Some ''2023-12-02''\<rparr>"

text \<open>A market row that carries a token id as its YES or its NO token id.\<close>

definition holds_token :: "string \<Rightarrow> market_row \<Rightarrow> bool" where
  "holds_token t m = (mk_yes_token_id m = Some t \<or> mk_no_token_id m = Some t)"

text \<open>
  The store after two discoveries that report the same YES token id under two slugs:
  \<open>upsert_market\<close> twice, starting from the empty store.
\<close>

definition two_markets_store :: conn where
  "two_markets_store =
     snd (upsert_market (snd (upsert_market init_db ''t0'' example_market)) ''t1''
            (example_market\<lparr>mp_slug := Some ''will-b-win''\<rparr>))"

section \<open>Block range resolution (indexer/run.py)\<close>

text \<open>
  \<open>determine_block_range\<close>. The chain head is read through \<open>w3.eth.block_number\<close>,
  at most twice; \<open>block_number k\<close> is what the read number \<open>k\<close> of this call returns.
  The cursor is read from the store only when no lower bound is set.
\<close>

definition determine_block_range ::
    "(nat \<Rightarrow> int) \<Rightarrow> conn \<Rightarrow> int option \<Rightarrow> int option \<Rightarrow> int option \<Rightarrow> error + int \<times> int" where
  "determine_block_range block_number c from_block to_block tx_block =
     (let from1 = (if tx_block \<noteq> None \<and> from_block = None then tx_block else from_block);
          to1 = (if tx_block \<noteq> None \<and> to_block = None then tx_block else to_block);
          to2 = (if from1 \<noteq> None \<and> to1 = None then from1 else to1);
          (from3, reads) =
            (case from1 of
               Some f \<Rightarrow> (f, 0)
             | None \<Rightarrow>
                 (case get_sync_state c ''trade_sync'' of
                    Some cursor \<Rightarrow> (cursor + 1, 0)
                  | None \<Rightarrow> (max 0 (block_number 0 - 10), Suc 0)));
          to3 = (case to2 of Some t \<Rightarrow> t | None \<Rightarrow> block_number reads)
      in if from3 > to3 then Inl ValueError else Inr (from3, to3))"


section \<open>Python runtime: decimal arithmetic\<close>

text \<open>
  A finite \<open>decimal.Decimal\<close>: a sign (\<open>True\<close> for negative), a coefficient and an
  exponent; its value is the signed coefficient times ten to the exponent. The
  context of the decoder has 40 digits of precision and rounds half to even. The
  exponent limits of the context (plus and minus 999999) are out of reach of the
  operands of the decoder, which lie below \<open>2 ^ 256\<close>, and are not modelled.
\<close>

datatype decimal = Decimal (dec_sign: bool) (dec_coeff: nat) (dec_exp: int)

definition prec :: nat where
  "prec = 40"

definition dec_value :: "decimal \<Rightarrow> real" where
  "dec_value d = (if dec_sign d then - 1 else 1) * real (dec_coeff d) * 10 powi dec_exp d"

text \<open>\<open>Decimal(n)\<close> of an integer is exact.\<close>

definition Decimal_of_int :: "int \<Rightarrow> decimal" where
  "Decimal_of_int i = Decimal (i < 0) (nat \<bar>i\<bar>) 0"

text \<open>The number of decimal digits of a coefficient (one for zero).\<close>

fun ndigits :: "nat \<Rightarrow> nat" where
  "ndigits n = (if n < 10 then 1 else Suc (ndigits (n div 10)))"

text \<open>
  Rounding to the precision of the context: a coefficient of more than \<open>p\<close> digits
  loses its low digits, half to even; a carry into digit \<open>p + 1\<close> drops one more digit.
\<close>

definition dec_fix :: "nat \<Rightarrow> decimal \<Rightarrow> decimal" where
  "dec_fix p d =
     (let n = ndigits (dec_coeff d) in
      if dec_coeff d = 0 \<or> n \<le> p then d
      else
        (let k = n - p;
             q = dec_coeff d div 10 ^ k;
             r = dec_coeff d mod 10 ^ k;
             half = 5 * 10 ^ (k - 1);
             q1 = (if r > half \<or> (r = half \<and> odd q) then q + 1 else q)
         in if ndigits q1 > p then Decimal (dec_sign d) (q1 div 10) (dec_exp d + int k + 1)
            else Decimal (dec_sign d) q1 (dec_exp d + int k)))"

text \<open>An exact quotient is brought as close to the ideal exponent as its zeros allow.\<close>

function strip_to_ideal :: "int \<Rightarrow> nat \<Rightarrow> int \<Rightarrow> nat \<times> int" where
  "strip_to_ideal ideal q e =
     (if e < ideal \<and> q mod 10 = 0 then strip_to_ideal ideal (q div 10) (e + 1) else (q, e))"
  by pat_completeness auto
termination
  by (relation "measure (\<lambda>(ideal, q, e). nat (ideal - e))") auto

text \<open>
  Division in the context: the integer quotient is taken with one digit more than
  the precision, an inexact quotient is marked in its last digit so that the final
  rounding sees it, and the result is rounded.
\<close>

definition dec_div :: "nat \<Rightarrow> decimal \<Rightarrow> decimal \<Rightarrow> error + decimal" where
  "dec_div p x y =
     (if dec_coeff y = 0 then Inl ZeroDivisionError
      else
        (let sign = (dec_sign x \<noteq> dec_sign y) in
         if dec_coeff x = 0 then Inr (dec_fix p (Decimal sign 0 (dec_exp x - dec_exp y)))
         else
           (let shift = int (ndigits (dec_coeff y)) - int (ndigits (dec_coeff x)) + int p + 1;
                e = dec_exp x - dec_exp y - shift;
                a = (if shift \<ge> 0 then dec_coeff x * 10 ^ nat shift else dec_coeff x);
                b = (if shift \<ge> 0 then dec_coeff y else dec_coeff y * 10 ^ nat (- shift));
                q = a div b;
                r = a mod b
            in if r \<noteq> 0 then Inr (dec_fix p (Decimal sign (if q mod 5 = 0 then q + 1 else q) e))
               else
                 (case strip_to_ideal (dec_exp x - dec_exp y) q e of
                    (q1, e1) \<Rightarrow> Inr (dec_fix p (Decimal sign q1 e1))))))"

text \<open>\<open>normalize\<close>: round, then strip every trailing zero; a zero becomes \<open>0E0\<close>.\<close>

function strip_zeros :: "nat \<Rightarrow> int \<Rightarrow> nat \<times> int" where
  "strip_zeros q e = (if q \<noteq> 0 \<and> q mod 10 = 0 then strip_zeros (q div 10) (e + 1) else (q, e))"
  by pat_completeness auto
termination
  by (relation "measure (\<lambda>(q, e). q)") auto

definition dec_normalize :: "nat \<Rightarrow> decimal \<Rightarrow> decimal" where
  "dec_normalize p d =
     (let d1 = dec_fix p d in
      if dec_coeff d1 = 0 then Decimal (dec_sign d1) 0 0
      else (case strip_zeros (dec_coeff d1) (dec_exp d1) of
              (q, e) \<Rightarrow> Decimal (dec_sign d1) q e))"

text \<open>
  \<open>str\<close> of a decimal: plain notation when the exponent is not positive and the
  number is not too small, scientific notation with one leading digit otherwise.
\<close>

definition dec_str :: "decimal \<Rightarrow> string" where
  "dec_str d =
     (let digits = str_nat (dec_coeff d);
          leftdigits = dec_exp d + int (length digits);
          dotplace = (if dec_exp d \<le> 0 \<and> leftdigits > - 6 then leftdigits else 1);
          intpart = (if dotplace \<le> 0 then ''0''
                     else if dotplace \<ge> int (length digits)
                     then digits @ replicate (nat dotplace - length digits) (CHR ''0'')
                     else take (nat dotplace) digits);
          fracpart = (if dotplace \<le> 0 then ''.'' @ replicate (nat (- dotplace)) (CHR ''0'') @ digits
                      else if dotplace \<ge> int (length digits) then []
                      else ''.'' @ drop (nat dotplace) digits);
          ex = (if leftdigits = dotplace then []
                else ''E'' @ (if leftdigits - dotplace < 0 then ''-'' else ''+'')
                     @ str_nat (nat \<bar>leftdigits - dotplace\<bar>))
      in (if dec_sign d then ''-'' else []) @ intpart @ fracpart @ ex)"


section \<open>The trade decoder (indexer/trade_decoder.py)\<close>

text \<open>
  A raw log as the provider hands it over. A hash is a string, a byte string or
  absent; an index or block number is an integer, a byte string or a string. The
  payload is absent or a string; the topics are strings.
\<close>

datatype pyhash = HashStr string | HashBytes string | HashNone

datatype hexval = HInt int | HBytes string | HStr string

record raw_log =
  log_topics :: "string list"
  log_data :: "string option"
  log_transactionHash :: pyhash
  log_blockHash :: pyhash
  log_logIndex :: "hexval option"
  log_blockNumber :: "hexval option"
  log_address :: "string option"

definition USDC_SCALE :: decimal where
  "USDC_SCALE = Decimal False 1000000 0"

text \<open>\<open>_topic_to_address\<close>: the last 40 characters behind an optional \<open>0x\<close>.\<close>

definition topic_to_address :: "string \<Rightarrow> string" where
  "topic_to_address topic_hex =
     (let compact = (if startswith topic_hex ''0x'' then drop 2 topic_hex else topic_hex)
      in ''0x'' @ drop (length compact - 40) compact)"

text \<open>\<open>int.from_bytes(b, "big")\<close> and \<open>bytes.hex()\<close>.\<close>

definition int_from_bytes :: "string \<Rightarrow> int" where
  "int_from_bytes bs = int (foldl (\<lambda>a c. a * 256 + of_char c) 0 bs)"

definition bytes_hex :: "string \<Rightarrow> string" where
  "bytes_hex bs = concat (map (\<lambda>c. [digit_char (of_char c div 16), digit_char (of_char c mod 16)]) bs)"

text \<open>
  \<open>_hex_to_int\<close>. An absent value has neither \<open>hex\<close> nor \<open>startswith\<close>, which
  raises \<open>AttributeError\<close>.
\<close>

definition hex_to_int :: "hexval option \<Rightarrow> error + int" where
  "hex_to_int v =
     (case v of
        None \<Rightarrow> Inl AttributeError
      | Some (HInt i) \<Rightarrow> Inr i
      | Some (HBytes bs) \<Rightarrow> Inr (int_from_bytes bs)
      | Some (HStr s) \<Rightarrow> if startswith s ''0x'' then py_int 16 s else py_int 10 s)"

text \<open>A hash as text: a string as it is, bytes in hexadecimal, \<open>str(None)\<close> otherwise.\<close>

definition hash_text :: "pyhash \<Rightarrow> string" where
  "hash_text h = (case h of HashStr s \<Rightarrow> s | HashBytes bs \<Rightarrow> bytes_hex bs | HashNone \<Rightarrow> ''None'')"

text \<open>
  \<open>_chunk_data_words\<close>: the payload behind an optional \<open>0x\<close> must have a length
  that is a multiple of 64; each run of 64 characters is read as a base-16 integer.
\<close>

function chunks64 :: "string \<Rightarrow> string list" where
  "chunks64 s = (if s = [] then [] else take 64 s # chunks64 (drop 64 s))"
  by pat_completeness auto
termination
  by (relation "measure length") auto

fun ints_base16 :: "string list \<Rightarrow> error + int list" where
  "ints_base16 [] = Inr []"
| "ints_base16 (c # cs) =
     (case py_int 16 c of
        Inl e \<Rightarrow> Inl e
      | Inr n \<Rightarrow> (case ints_base16 cs of Inl e \<Rightarrow> Inl e | Inr ns \<Rightarrow> Inr (n # ns)))"

definition chunk_data_words :: "string \<Rightarrow> error + int list" where
  "chunk_data_words data_hex =
     (let data = (if startswith data_hex ''0x'' then drop 2 data_hex else data_hex)
      in if length data mod 64 \<noteq> 0 then Inl ValueError else ints_base16 (chunks64 data))"

text \<open>The format \<open>064x\<close>: sign, then zeros up to 64 characters, then the hex digits.\<close>

definition fmt_064x :: "int \<Rightarrow> string" where
  "fmt_064x i =
     (let ds = hex_nat (nat \<bar>i\<bar>);
          sg = (if i < 0 then ''-'' else [])
      in sg @ replicate (64 - length sg - length ds) (CHR ''0'') @ ds)"

text \<open>
  \<open>decode_order_filled_log\<close>. Fewer than three topics, a misaligned or unreadable
  payload and fewer than six words raise \<open>ValueError\<close>; so can the conversion of
  the log index and of the block number. Size and price are decimal quotients in the
  40-digit context, written normalized.
\<close>

definition decode_order_filled_log :: "raw_log \<Rightarrow> error + trade" where
  "decode_order_filled_log raw =
     (let topics = log_topics raw in
      if length topics < 3 then Inl ValueError
      else
        (case chunk_data_words (case log_data raw of None \<Rightarrow> ''0x'' | Some d \<Rightarrow> d) of
           Inl e \<Rightarrow> Inl e
         | Inr words \<Rightarrow>
             if length words < 6 then Inl ValueError
             else
               (let order_hash_word = words ! 0;
                    maker_asset_id = words ! 1;
                    taker_asset_id = words ! 2;
                    maker_amount_filled = words ! 3;
                    taker_amount_filled = words ! 4;
                    fee = words ! 5;
                    maker = topic_to_address (topics ! 1);
                    taker = topic_to_address (topics ! 2);
                    side = (if maker_asset_id = 0 \<and> taker_asset_id \<noteq> 0 then ''BUY'' else ''SELL'');
                    token_id = (if side = ''BUY'' then taker_asset_id else maker_asset_id);
                    token_amount = (if side = ''BUY'' then taker_amount_filled else maker_amount_filled);
                    usdc_amount = (if side = ''BUY'' then maker_amount_filled else taker_amount_filled)
                in case (if token_amount \<noteq> 0
                         then dec_div prec (Decimal_of_int token_amount) USDC_SCALE
                         else Inr (Decimal False 0 0)) of
                     Inl e \<Rightarrow> Inl e
                   | Inr size_dec \<Rightarrow>
                (case (if token_amount \<noteq> 0
                       then dec_div prec (Decimal_of_int usdc_amount) (Decimal_of_int token_amount)
                       else Inr (Decimal False 0 0)) of
                     Inl e \<Rightarrow> Inl e
                   | Inr price_dec \<Rightarrow>
                (case hex_to_int (log_logIndex raw) of
                     Inl e \<Rightarrow> Inl e
                   | Inr log_index \<Rightarrow>
                (case hex_to_int (log_blockNumber raw) of
                     Inl e \<Rightarrow> Inl e
                   | Inr block_number \<Rightarrow>
                       Inr \<lparr>t_order_hash = Some (''0x'' @ fmt_064x order_hash_word),
                            t_maker = Some maker,
                            t_taker = Some taker,
                            t_maker_asset_id = Some maker_asset_id,
                            t_taker_asset_id = Some taker_asset_id,
                            t_maker_amount_filled = Some maker_amount_filled,
                            t_taker_amount_filled = Some taker_amount_filled,
                            t_fee = Some fee,
                            t_side = Some side,
                            t_token_id = Some (str_int token_id),
                            t_price = Val (dec_str (dec_normalize prec price_dec)),
                            t_size = Val (dec_str (dec_normalize prec size_dec)),
                            t_tx_hash = Some (hash_text (log_transactionHash raw)),
                            t_log_index = Some log_index,
                            t_block_number = Some block_number,
                            t_block_hash = Some (hash_text (log_blockHash raw)),
                            t_exchange_address = log_address raw,
                            t_market_id = None,
                            t_outcome = None,
                            t_timestamp = None\<rparr>))))))"

text \<open>
  The log of the end-to-end scenario: three topics, six data words with maker asset
  0, taker asset 555, one million collateral units against two million token units.
\<close>

definition word64 :: "nat \<Rightarrow> string" where
  "word64 n = replicate (64 - length (hex_nat n)) (CHR ''0'') @ hex_nat n"

definition example_log :: raw_log where
  "example_log =
     \<lparr>log_topics = [''0xd0a08e8c'', ''0x'' @ word64 170, ''0x'' @ word64 187],
      log_data = Some (''0x'' @ word64 1 @ word64 0 @ word64 555 @ word64 1000000
                        @ word64 2000000 @ word64 0),
      log_transactionHash = HashStr ''0xabc'',
      log_blockHash = HashStr ''0xdef'',
      log_logIndex = Some (HInt 7),
      log_blockNumber = Some (HStr ''0x64''),
      log_address = Some ''0xee''\<rparr>"


section \<open>The indexing run (indexer/run.py)\<close>

text \<open>
  The world outside the process. Every call that leaves the process (the metadata
  service, the chain RPC, the clocks) is a function of the time \<open>w_tick\<close> at which it
  is made, so that two calls may answer differently; each such call advances the time.
  A response of the metadata service is given after normalization: the event payload,
  and the market payloads as \<open>normalize_market_payload\<close> produces them from the row id
  and the negative-risk flag of the event (\<open>None\<close> for a market that is skipped).
\<close>

record gamma_response =
  gr_event :: event_payload
  gr_markets :: "int \<Rightarrow> bool \<Rightarrow> market_payload option list"

record env =
  env_gamma :: "nat \<Rightarrow> string \<Rightarrow> error + gamma_response"
  env_get_logs :: "nat \<Rightarrow> string list \<Rightarrow> int \<Rightarrow> int \<Rightarrow> error + raw_log list"
  env_block_timestamp :: "nat \<Rightarrow> int \<Rightarrow> error + string"
  env_utc_now_iso :: "nat \<Rightarrow> string"
  env_current_timestamp :: "nat \<Rightarrow> string"
  env_to_checksum_address :: "string \<Rightarrow> error + string"

text \<open>
  The trace lists, in order, the steps of a run the claims speak about: a metadata
  discovery for a slug, the logs fetched, a batch handed to \<open>insert_trades\<close> that
  returned, and a cursor written.
\<close>

datatype effect =
    Discovery string
  | LogsFetched "raw_log list"
  | TradesInserted "trade list"
  | CursorWritten string int

record world =
  w_conn :: conn
  w_tick :: nat
  w_trace :: "effect list"

record settings =
  st_log_chunk_size :: int
  st_db_path :: string

record discovery =
  d_event_slug :: "string option"
  d_event_id :: "int option"
  d_markets :: "int list"

text \<open>The truth value of an optional string: \<open>None\<close> and the empty string are false.\<close>

definition given :: "string option \<Rightarrow> bool" where
  "given s = (case s of None \<Rightarrow> False | Some x \<Rightarrow> x \<noteq> [])"

text \<open>The loop of \<open>discover_markets\<close> over the normalized markets.\<close>

fun upsert_markets :: "env \<Rightarrow> market_payload option list \<Rightarrow> int list \<Rightarrow> world \<Rightarrow> (error + int list) \<times> world" where
  "upsert_markets env [] ids w = (Inr ids, w)"
| "upsert_markets env (m # ms) ids w =
     (case m of
        None \<Rightarrow> upsert_markets env ms ids w
      | Some payload \<Rightarrow>
          (case upsert_market (w_conn w) (env_utc_now_iso env (w_tick w)) payload of
             (Inl e, c) \<Rightarrow> (Inl e, w\<lparr>w_conn := c, w_tick := Suc (w_tick w)\<rparr>)
           | (Inr market_row_id, c) \<Rightarrow>
               upsert_markets env ms (ids @ [market_row_id])
                 (w\<lparr>w_conn := c, w_tick := Suc (w_tick w)\<rparr>)))"

text \<open>
  \<open>discover_markets\<close>: nothing without a slug; otherwise the metadata service is
  asked, the event is upserted under its slug (the given slug when the payload has
  none), and every market that normalizes is upserted.
\<close>

definition discover_markets :: "env \<Rightarrow> world \<Rightarrow> string option \<Rightarrow> (error + discovery) \<times> world" where
  "discover_markets env w event_slug =
     (case event_slug of
        None \<Rightarrow> (Inr \<lparr>d_event_slug = None, d_event_id = None, d_markets = []\<rparr>, w)
      | Some slug \<Rightarrow>
          if slug = [] then (Inr \<lparr>d_event_slug = None, d_event_id = None, d_markets = []\<rparr>, w)
          else
            (let w1 = w\<lparr>w_tick := Suc (w_tick w), w_trace := w_trace w @ [Discovery slug]\<rparr> in
             case env_gamma env (w_tick w) slug of
               Inl e \<Rightarrow> (Inl e, w1)
             | Inr resp \<Rightarrow>
                 (let event_payload =
                        (if given (ep_slug (gr_event resp)) then gr_event resp
                         else (gr_event resp)\<lparr>ep_slug := Some slug\<rparr>)
                  in case upsert_event (w_conn w1) (env_utc_now_iso env (w_tick w1)) event_payload of
                       (Inl e, c) \<Rightarrow> (Inl e, w1\<lparr>w_conn := c, w_tick := Suc (w_tick w1)\<rparr>)
                     | (Inr event_row_id, c) \<Rightarrow>
                         (case upsert_markets env
                                 (gr_markets resp event_row_id
                                    (flag_int False (ep_neg_risk event_payload) = 1))
                                 [] (w1\<lparr>w_conn := c, w_tick := Suc (w_tick w1)\<rparr>) of
                            (Inl e, w2) \<Rightarrow> (Inl e, w2)
                          | (Inr ids, w2) \<Rightarrow>
                              (Inr \<lparr>d_event_slug = ep_slug event_payload,
                                    d_event_id = Some event_row_id,
                                    d_markets = ids\<rparr>, w2)))))"

text \<open>
  \<open>_ensure_market_cached\<close>: the store is asked first; on a miss, when a slug is
  given and no discovery was attempted in this run, one discovery is made and the store
  is asked again.
\<close>

definition ensure_market_cached ::
    "env \<Rightarrow> world \<Rightarrow> string \<Rightarrow> string option \<Rightarrow> bool \<Rightarrow> (error + market_row option \<times> bool) \<times> world" where
  "ensure_market_cached env w token_id event_slug market_discovery_attempted =
     (case fetch_market_by_token_id (w_conn w) (Some token_id) of
        Inl e \<Rightarrow> (Inl e, w)
      | Inr (Some market) \<Rightarrow> (Inr (Some market, market_discovery_attempted), w)
      | Inr None \<Rightarrow>
          if given event_slug \<and> \<not> market_discovery_attempted then
            (case discover_markets env w event_slug of
               (Inl e, w1) \<Rightarrow> (Inl e, w1)
             | (Inr found, w1) \<Rightarrow>
                 (case fetch_market_by_token_id (w_conn w1) (Some token_id) of
                    Inl e \<Rightarrow> (Inl e, w1)
                  | Inr market \<Rightarrow> (Inr (market, True), w1)))
          else (Inr (None, market_discovery_attempted), w))"

text \<open>\<open>_get_block_timestamp_iso\<close>: one lookup per block number, kept in the cache.\<close>

definition get_block_timestamp_iso ::
    "env \<Rightarrow> world \<Rightarrow> (int \<rightharpoonup> string) \<Rightarrow> int \<Rightarrow> (error + string \<times> (int \<rightharpoonup> string)) \<times> world" where
  "get_block_timestamp_iso env w cache block_number =
     (case cache block_number of
        Some ts \<Rightarrow> (Inr (ts, cache), w)
      | None \<Rightarrow>
          (case env_block_timestamp env (w_tick w) block_number of
             Inl e \<Rightarrow> (Inl e, w\<lparr>w_tick := Suc (w_tick w)\<rparr>)
           | Inr ts \<Rightarrow> (Inr (ts, cache(block_number \<mapsto> ts)), w\<lparr>w_tick := Suc (w_tick w)\<rparr>)))"

text \<open>The outcome of a trade: its token id against the YES and the NO id of the market.\<close>

definition classify_outcome :: "string \<Rightarrow> market_row \<Rightarrow> error + string" where
  "classify_outcome token_id market =
     (case normalize_token_id (mk_yes_token_id market) of
        Inl e \<Rightarrow> Inl e
      | Inr yes \<Rightarrow>
          if Some token_id = yes then Inr ''YES''
          else (case normalize_token_id (mk_no_token_id market) of
                  Inl e \<Rightarrow> Inl e
                | Inr no \<Rightarrow> if Some token_id = no then Inr ''NO'' else Inr ''UNKNOWN''))"

text \<open>
  The state of the loop over the logs, and one turn of it. An exception of the
  decoder is not caught: it ends the turn, the loop and the run.
\<close>

record loop_state =
  ls_cache :: "int \<rightharpoonup> string"
  ls_attempted :: bool
  ls_to_insert :: "trade list"

definition index_log ::
    "env \<Rightarrow> string option \<Rightarrow> raw_log \<Rightarrow> loop_state \<Rightarrow> world \<Rightarrow> (error + loop_state) \<times> world" where
  "index_log env event_slug raw ls w =
     (case decode_order_filled_log raw of
        Inl e \<Rightarrow> (Inl e, w)
      | Inr decoded \<Rightarrow>
     (case normalize_token_id (t_token_id decoded) of
        Inl e \<Rightarrow> (Inl e, w)
      | Inr None \<Rightarrow> (Inr ls, w)
      | Inr (Some token_id) \<Rightarrow>
     (case ensure_market_cached env w token_id event_slug (ls_attempted ls) of
        (Inl e, w1) \<Rightarrow> (Inl e, w1)
      | (Inr (None, attempted), w1) \<Rightarrow> (Inr (ls\<lparr>ls_attempted := attempted\<rparr>), w1)
      | (Inr (Some market, attempted), w1) \<Rightarrow>
     (case classify_outcome token_id market of
        Inl e \<Rightarrow> (Inl e, w1)
      | Inr outcome \<Rightarrow>
     (case t_block_number decoded of
        None \<Rightarrow> (Inl TypeError, w1)
      | Some block_number \<Rightarrow>
     (case get_block_timestamp_iso env w1 (ls_cache ls) block_number of
        (Inl e, w2) \<Rightarrow> (Inl e, w2)
      | (Inr (ts, cache), w2) \<Rightarrow>
          (Inr \<lparr>ls_cache = cache,
                ls_attempted = attempted,
                ls_to_insert = ls_to_insert ls
                  @ [decoded\<lparr>t_market_id := Some (mk_id market),
                             t_outcome := Some outcome,
                             t_timestamp := Some ts\<rparr>]\<rparr>, w2)))))))"

fun index_logs ::
    "env \<Rightarrow> string option \<Rightarrow> raw_log list \<Rightarrow> loop_state \<Rightarrow> world \<Rightarrow> (error + loop_state) \<times> world" where
  "index_logs env event_slug [] ls w = (Inr ls, w)"
| "index_logs env event_slug (raw # logs) ls w =
     (case index_log env event_slug raw ls w of
        (Inl e, w1) \<Rightarrow> (Inl e, w1)
      | (Inr ls1, w1) \<Rightarrow> index_logs env event_slug logs ls1 w1)"

text \<open>
  \<open>_collect_logs\<close>: one query per chunk of the range. With a chunk size below one
  the loop of the source does not end, so the function is partial: \<open>None\<close> stands for
  a call that does not return. The result carries the time after the last query.
\<close>

partial_function (option) collect_logs ::
    "env \<Rightarrow> string list \<Rightarrow> int \<Rightarrow> int \<Rightarrow> int \<Rightarrow> raw_log list \<Rightarrow> nat
      \<Rightarrow> ((error + raw_log list) \<times> nat) option" where
  "collect_logs env addresses cursor to_block chunk_size all_logs tick =
     (if cursor \<le> to_block then
        (case env_get_logs env tick addresses cursor (min (cursor + chunk_size - 1) to_block) of
           Inl e \<Rightarrow> Some (Inl e, Suc tick)
         | Inr logs \<Rightarrow>
             collect_logs env addresses (min (cursor + chunk_size - 1) to_block + 1) to_block
               chunk_size (all_logs @ logs) (Suc tick))
      else Some (Inr all_logs, tick))"

text \<open>The enabled exchange addresses, in checksum form.\<close>

definition exchange_addresses ::
    "env \<Rightarrow> string \<Rightarrow> string \<Rightarrow> bool \<Rightarrow> bool \<Rightarrow> error + string list" where
  "exchange_addresses env exchange_address neg_risk_exchange include_exchange include_neg_risk =
     (case (if include_exchange \<and> exchange_address \<noteq> []
            then map_sum id (\<lambda>a. [a]) (env_to_checksum_address env exchange_address)
            else Inr []) of
        Inl e \<Rightarrow> Inl e
      | Inr first \<Rightarrow>
          (case (if include_neg_risk \<and> neg_risk_exchange \<noteq> []
                 then map_sum id (\<lambda>a. [a]) (env_to_checksum_address env neg_risk_exchange)
                 else Inr []) of
             Inl e \<Rightarrow> Inl e
           | Inr second \<Rightarrow> Inr (first @ second)))"

record summary =
  s_from_block :: int
  s_to_block :: int
  s_inserted_trades :: int
  s_market_slug :: "string option"
  s_market_id :: "int option"
  s_sample_trades :: "trade list"
  s_db_path :: string
  s_market_discovery :: discovery

text \<open>\<open>market_id\<close> of the summary: the market of the first trade, unless it is 0.\<close>

definition summary_market_id :: "trade list \<Rightarrow> int option" where
  "summary_market_id to_insert =
     (case to_insert of
        [] \<Rightarrow> None
      | t # _ \<Rightarrow> (case t_market_id t of None \<Rightarrow> None
                  | Some i \<Rightarrow> if i = 0 then None else Some i))"

text \<open>
  \<open>run_indexer\<close>: discover, fetch, decode and resolve every log, insert the batch,
  write the cursor, summarize. Every exception ends the run where it is raised.
\<close>

definition run_indexer ::
    "env \<Rightarrow> settings \<Rightarrow> world \<Rightarrow> int \<Rightarrow> int \<Rightarrow> string \<Rightarrow> string \<Rightarrow> bool \<Rightarrow> bool \<Rightarrow> string option
      \<Rightarrow> ((error + summary) \<times> world) option" where
  "run_indexer env st w from_block to_block exchange_address neg_risk_exchange
       include_exchange include_neg_risk event_slug =
     (case discover_markets env w event_slug of
        (Inl e, w1) \<Rightarrow> Some (Inl e, w1)
      | (Inr discovery_result, w1) \<Rightarrow>
     (case exchange_addresses env exchange_address neg_risk_exchange
             include_exchange include_neg_risk of
        Inl e \<Rightarrow> Some (Inl e, w1)
      | Inr addresses \<Rightarrow>
          if addresses = [] then Some (Inl ValueError, w1)
          else
     (case collect_logs env addresses from_block to_block (max 1 (st_log_chunk_size st)) []
             (w_tick w1) of
        None \<Rightarrow> None
      | Some (Inl e, tick) \<Rightarrow> Some (Inl e, w1\<lparr>w_tick := tick\<rparr>)
      | Some (Inr logs, tick) \<Rightarrow>
     (case index_logs env event_slug logs
             \<lparr>ls_cache = Map.empty, ls_attempted = False, ls_to_insert = []\<rparr>
             (w1\<lparr>w_tick := tick, w_trace := w_trace w1 @ [LogsFetched logs]\<rparr>) of
        (Inl e, w3) \<Rightarrow> Some (Inl e, w3)
      | (Inr ls, w3) \<Rightarrow>
     (case insert_trades (w_conn w3) (env_current_timestamp env (w_tick w3)) (ls_to_insert ls) of
        (Inl e, c) \<Rightarrow> Some (Inl e, w3\<lparr>w_conn := c, w_tick := Suc (w_tick w3)\<rparr>)
      | (Inr inserted, c) \<Rightarrow>
     (case update_sync_state c (env_current_timestamp env (Suc (w_tick w3))) ''trade_sync'' to_block of
        (Inl e, c1) \<Rightarrow>
          Some (Inl e, w3\<lparr>w_conn := c1, w_tick := Suc (Suc (w_tick w3)),
                           w_trace := w_trace w3 @ [TradesInserted (ls_to_insert ls)]\<rparr>)
      | (Inr u, c1) \<Rightarrow>
          Some (Inr \<lparr>s_from_block = from_block,
                     s_to_block = to_block,
                     s_inserted_trades = inserted,
                     s_market_slug = event_slug,
                     s_market_id = summary_market_id (ls_to_insert ls),
                     s_sample_trades = take 5 (ls_to_insert ls),
                     s_db_path = st_db_path st,
                     s_market_discovery = discovery_result\<rparr>,
                w3\<lparr>w_conn := c1, w_tick := Suc (Suc (w_tick w3)),
                    w_trace := w_trace w3 @ [TradesInserted (ls_to_insert ls),
                                             CursorWritten ''trade_sync'' to_block]\<rparr>)))))))"


subsection \<open>Auxiliary notions for the run\<close>

text \<open>Kinds of trace entries, and two stores with the same trades and the same cursors.\<close>

definition is_discovery :: "effect \<Rightarrow> bool" where
  "is_discovery x = (case x of Discovery s \<Rightarrow> True | _ \<Rightarrow> False)"

definition is_store_write :: "effect \<Rightarrow> bool" where
  "is_store_write x = (case x of TradesInserted b \<Rightarrow> True | CursorWritten k v \<Rightarrow> True | _ \<Rightarrow> False)"

definition same_trades_and_cursor :: "conn \<Rightarrow> conn \<Rightarrow> bool" where
  "same_trades_and_cursor c c1 =
     (trades (live c1) = trades (live c) \<and> sync_state (live c1) = sync_state (live c))"

text \<open>What a step may add to the trace: discoveries only, at most \<open>n\<close> of them.\<close>

definition adds_discoveries :: "world \<Rightarrow> world \<Rightarrow> nat \<Rightarrow> bool" where
  "adds_discoveries w w1 n =
     (\<exists>new. w_trace w1 = w_trace w @ new \<and> list_all is_discovery new \<and> length new \<le> n)"


text \<open>How many discoveries a run may still trigger on a miss.\<close>

definition remaining :: "bool \<Rightarrow> nat" where
  "remaining attempted = (if attempted then 0 else 1)"

text \<open>The discovery a run makes before it fetches logs, and a log the decoder accepts.\<close>

definition first_discovery :: "string option \<Rightarrow> effect list" where
  "first_discovery slug = (if given slug then [Discovery (the slug)] else [])"

definition decodable :: "raw_log \<Rightarrow> bool" where
  "decodable raw = (\<exists>t. decode_order_filled_log raw = Inr t)"


section \<open>Properties of the integer conversions\<close>

lemma digit_value_digit_char: "d < 16 \<Longrightarrow> digit_value (digit_char d) = Some d"
proof -
  assume "d < 16"
  then have "d \<in> set [0..<16]" by simp
  then show ?thesis
    by (simp add: upt_rec digit_char_def digit_value_def) (elim disjE; simp)
qed

lemma digit_char_not_underscore: "d < 16 \<Longrightarrow> digit_char d \<noteq> CHR ''_''"
proof -
  assume "d < 16"
  then have "d \<in> set [0..<16]" by simp
  then show ?thesis
    by (simp add: upt_rec digit_char_def) (elim disjE; simp)
qed

lemma digit_char_decimal: "d < 10 \<Longrightarrow> digit_char d \<in> set ''0123456789''"
proof -
  assume "d < 10"
  then have "d \<in> set [0..<10]" by simp
  then show ?thesis
    by (simp add: upt_rec digit_char_def) (elim disjE; simp)
qed

lemma scan_digits_numeral:
  "numeral_of base ds \<Longrightarrow> ds \<noteq> [] \<or> prev \<noteq> Some (CHR ''_'') \<Longrightarrow>
   scan_digits base prev acc ds = Some (numeral_value base acc ds, [])"
proof (induction ds arbitrary: prev acc)
  case Nil
  then show ?case by (simp add: numeral_value_def)
next
  case (Cons c cs)
  from Cons.prems(1) obtain d where d: "c \<noteq> CHR ''_''" "digit_value c = Some d" "d < base"
    and rest: "numeral_of base cs"
    by (auto simp: numeral_of_def)
  have "scan_digits base (Some c) (acc * base + d) cs = Some (numeral_value base (acc * base + d) cs, [])"
    using Cons.IH [OF rest, of "Some c" "acc * base + d"] d(1) by simp
  then show ?case using d by (simp add: numeral_value_def)
qed

declare str_nat.simps [simp del] hex_nat.simps [simp del]

lemma str_nat_numeral: "numeral_of 10 (str_nat n)"
proof (induction n rule: str_nat.induct)
  case (1 n)
  show ?case
  proof (cases "n < 10")
    case True
    then show ?thesis
      using digit_value_digit_char [of n] digit_char_not_underscore [of n]
      by (subst str_nat.simps) (simp add: numeral_of_def)
  next
    case False
    have "n mod 10 < 16" by simp
    then show ?thesis
      using False "1.IH" digit_value_digit_char [of "n mod 10"] digit_char_not_underscore [of "n mod 10"]
      by (subst str_nat.simps) (auto simp: numeral_of_def)
  qed
qed

lemma str_nat_value: "numeral_value 10 0 (str_nat n) = n"
proof (induction n rule: str_nat.induct)
  case (1 n)
  show ?case
  proof (cases "n < 10")
    case True
    then show ?thesis
      using digit_value_digit_char [of n]
      by (subst str_nat.simps) (simp add: numeral_value_def)
  next
    case False
    have "n mod 10 < 16" by simp
    then show ?thesis
      using False "1.IH" digit_value_digit_char [of "n mod 10"]
      by (subst str_nat.simps) (simp add: numeral_value_def)
  qed
qed

lemma hex_nat_numeral: "numeral_of 16 (hex_nat n)"
proof (induction n rule: hex_nat.induct)
  case (1 n)
  show ?case
  proof (cases "n < 16")
    case True
    then show ?thesis
      using digit_value_digit_char [of n] digit_char_not_underscore [of n]
      by (subst hex_nat.simps) (simp add: numeral_of_def)
  next
    case False
    have "n mod 16 < 16" by simp
    then show ?thesis
      using False "1.IH" digit_value_digit_char [of "n mod 16"] digit_char_not_underscore [of "n mod 16"]
      by (subst hex_nat.simps) (auto simp: numeral_of_def)
  qed
qed

lemma hex_nat_value: "numeral_value 16 0 (hex_nat n) = n"
proof (induction n rule: hex_nat.induct)
  case (1 n)
  show ?case
  proof (cases "n < 16")
    case True
    then show ?thesis
      using digit_value_digit_char [of n]
      by (subst hex_nat.simps) (simp add: numeral_value_def)
  next
    case False
    have "n mod 16 < 16" by simp
    then show ?thesis
      using False "1.IH" digit_value_digit_char [of "n mod 16"]
      by (subst hex_nat.simps) (simp add: numeral_value_def)
  qed
qed

lemma str_nat_nonempty: "str_nat n \<noteq> []"
  by (subst str_nat.simps) simp

lemma hex_nat_nonempty: "hex_nat n \<noteq> []"
  by (subst hex_nat.simps) simp

lemma strip_chars_id:
  "s = [] \<or> (\<not> p (hd s) \<and> \<not> p (last s)) \<Longrightarrow> strip_chars p s = s"
proof (cases s)
  case Nil
  then show ?thesis by (simp add: strip_chars_def)
next
  case (Cons a as)
  assume "s = [] \<or> (\<not> p (hd s) \<and> \<not> p (last s))"
  with Cons have h: "\<not> p a" and l: "\<not> p (last s)" by auto
  have 1: "dropWhile p s = s" using Cons h by simp
  have "rev s \<noteq> []" using Cons by simp
  then obtain b bs where r: "rev s = b # bs" by (cases "rev s") auto
  have "b = last s" using r Cons by (metis hd_rev list.sel(1))
  then have "dropWhile p (b # bs) = b # bs" using l by simp
  then have 2: "dropWhile p (rev s) = rev s" using r by simp
  show ?thesis by (simp add: strip_chars_def 1 2)
qed

lemma last_dropWhile: "dropWhile p xs \<noteq> [] \<Longrightarrow> last (dropWhile p xs) = last xs"
  by (induction xs) (auto split: if_splits)

lemma strip_chars_ends:
  assumes "strip_chars p s \<noteq> []"
  shows "\<not> p (hd (strip_chars p s))" and "\<not> p (last (strip_chars p s))"
proof -
  let ?a = "dropWhile p s"
  let ?b = "dropWhile p (rev ?a)"
  have b: "?b \<noteq> []" using assms by (simp add: strip_chars_def)
  have a: "?a \<noteq> []"
  proof
    assume e: "?a = []"
    have "?b = dropWhile p (rev [])" by (simp only: e)
    with b show False by simp
  qed
  have "last (strip_chars p s) = hd ?b" using b by (simp add: strip_chars_def last_rev)
  then show "\<not> p (last (strip_chars p s))" using hd_dropWhile [OF b] by simp
  have "hd (strip_chars p s) = last ?b" using b by (simp add: strip_chars_def hd_rev)
  also have "\<dots> = last (rev ?a)"
    by (rule last_dropWhile [OF b])
  also have "\<dots> = hd ?a" using a by (simp add: last_rev)
  finally show "\<not> p (hd (strip_chars p s))" using hd_dropWhile [OF a] by simp
qed

lemma hex_digit_plain:
  assumes "digit_value c = Some d" and "d < 16"
  shows "\<not> int_isspace c" and "\<not> str_isspace c" and "c \<noteq> CHR ''+''" and "c \<noteq> CHR ''-''"
    and "c \<noteq> CHR ''x''" and "c \<noteq> CHR ''X''" and "c \<noteq> CHR 0x22" and "c \<noteq> CHR 0x27"
  using assms
  by (auto simp: digit_value_def int_isspace_def str_isspace_def Let_def split: if_splits)

lemma numeral_hd:
  assumes "numeral_of base ds" and "ds \<noteq> []" and "base \<le> 16"
  shows "\<exists>d. digit_value (hd ds) = Some d \<and> d < 16" and "hd ds \<noteq> CHR ''_''"
  using assms by (cases ds; fastforce simp: numeral_of_def)+

lemma numeral_last:
  assumes "numeral_of base ds" and "ds \<noteq> []" and "base \<le> 16"
  shows "\<exists>d. digit_value (last ds) = Some d \<and> d < 16"
proof -
  have "last ds \<in> set ds" using assms(2) by simp
  then show ?thesis using assms(1,3) by (fastforce simp: numeral_of_def)
qed

lemma numeral_no_prefix:
  assumes "numeral_of base ds" and "base \<le> 16"
  shows "\<not> startswith ds ''0x''" and "\<not> startswith ds ''0X''"
proof -
  have "\<And>a b cs. ds = a # b # cs \<Longrightarrow> b \<noteq> CHR ''x'' \<and> b \<noteq> CHR ''X''"
  proof -
    fix a b cs assume "ds = a # b # cs"
    then have "b \<in> set ds" by simp
    then obtain d where "digit_value b = Some d" "d < 16"
      using assms by (fastforce simp: numeral_of_def)
    then show "b \<noteq> CHR ''x'' \<and> b \<noteq> CHR ''X''" using hex_digit_plain(5,6) by blast
  qed
  then show "\<not> startswith ds ''0x''" and "\<not> startswith ds ''0X''"
    by (cases ds; cases "tl ds"; auto simp: startswith_def)+
qed

lemma py_int_numeral:
  assumes "numeral_of base ds" and "ds \<noteq> []" and "base \<le> 16"
  shows "py_int base ds = Inr (int (numeral_value base 0 ds))"
proof -
  obtain c cs where ds: "ds = c # cs" using assms(2) by (cases ds) auto
  obtain d where d: "digit_value c = Some d" "d < 16" and us: "c \<noteq> CHR ''_''"
    using numeral_hd [OF assms] ds by auto
  note p = hex_digit_plain [OF d]
  have 1: "dropWhile int_isspace ds = ds" using ds p(1) by simp
  have 2: "\<not> startswith ds ''-''" "\<not> startswith ds ''+''" "\<not> startswith ds ''_''"
    using ds p(3,4) us by (simp_all add: startswith_def)
  note 3 = numeral_no_prefix [OF assms(1,3)]
  have 4: "scan_digits base None 0 ds = Some (numeral_value base 0 ds, [])"
    by (rule scan_digits_numeral [OF assms(1)]) simp
  show ?thesis
    using assms(2) by (simp add: py_int_def 1 2 3 4)
qed

lemma py_int_hex_prefixed:
  assumes "numeral_of 16 ds" and "ds \<noteq> []"
  shows "py_int 16 (''0x'' @ ds) = Inr (int (numeral_value 16 0 ds))"
proof -
  have us: "\<not> startswith ds ''_''"
    using numeral_hd(2) [OF assms] assms(2) by (cases ds) (auto simp: startswith_def)
  have 4: "scan_digits 16 None 0 ds = Some (numeral_value 16 0 ds, [])"
    by (rule scan_digits_numeral [OF assms(1)]) simp
  show ?thesis
    using assms(2) us
    by (simp add: py_int_def startswith_def int_isspace_def 4)
qed

lemma py_int_nonneg:
  assumes "py_int base v = Inr n" and "v \<noteq> []" and "\<not> int_isspace (hd v)" and "hd v \<noteq> CHR ''-''"
  shows "0 \<le> n"
proof -
  obtain c cs where v: "v = c # cs" using assms(2) by (cases v) auto
  have 1: "dropWhile int_isspace v = v" using v assms(3) by simp
  have 2: "\<not> startswith v ''-''" using v assms(4) by (simp add: startswith_def)
  show ?thesis
    using assms(1) unfolding py_int_def Let_def 1
    by (simp add: 2 split: if_splits option.splits prod.splits)
qed

section \<open>Token id normalization\<close>

lemma str_nat_decimal: "list_all (\<lambda>c. c \<in> set ''0123456789'') (str_nat n)"
proof (induction n rule: str_nat.induct)
  case (1 n)
  show ?case
  proof (cases "n < 10")
    case True
    then show ?thesis using digit_char_decimal [of n] by (subst str_nat.simps) simp
  next
    case False
    then show ?thesis
      using "1.IH" digit_char_decimal [of "n mod 10"] by (subst str_nat.simps) simp
  qed
qed

lemma str_nat_isdigit: "isdigit (str_nat n)"
  using str_nat_decimal [of n] str_nat_nonempty [of n]
  by (auto simp: isdigit_def isdigit_char_def list_all_iff)

lemma str_int_nat: "str_int (int n) = str_nat n"
  by (simp add: str_int_def)

lemma numeral_strips:
  assumes "numeral_of base ds" and "ds \<noteq> []" and "base \<le> 16"
  shows "strip_chars (\<lambda>c. c = CHR 0x27) (strip_chars (\<lambda>c. c = CHR 0x22) (strip_chars str_isspace ds)) = ds"
proof -
  obtain d where d: "digit_value (hd ds) = Some d" "d < 16" using numeral_hd(1) [OF assms] by auto
  obtain e where e: "digit_value (last ds) = Some e" "e < 16" using numeral_last [OF assms] by auto
  note a = hex_digit_plain [OF d] and b = hex_digit_plain [OF e]
  have 1: "strip_chars str_isspace ds = ds" by (rule strip_chars_id) (simp add: a b)
  have 2: "strip_chars (\<lambda>c. c = CHR 0x22) ds = ds" by (rule strip_chars_id) (simp add: a b)
  have 3: "strip_chars (\<lambda>c. c = CHR 0x27) ds = ds" by (rule strip_chars_id) (simp add: a b)
  show ?thesis by (simp add: 1 2 3)
qed

lemma normalize_token_id_decimal:
  "normalize_token_id (Some (str_nat n)) = Inr (Some (str_nat n))"
proof -
  have num: "numeral_of 10 (str_nat n)" by (rule str_nat_numeral)
  have ne: "str_nat n \<noteq> []" by (rule str_nat_nonempty)
  have 1: "py_int 10 (str_nat n) = Inr (int n)"
    using py_int_numeral [OF num ne] by (simp add: str_nat_value)
  have 2: "\<not> startswith (str_nat n) ''0x''" using numeral_no_prefix(1) [OF num] by simp
  show ?thesis
    using ne by (simp add: normalize_token_id_def numeral_strips [OF num ne] 1 2 str_nat_isdigit str_int_nat)
qed

lemma normalize_token_id_hex:
  "normalize_token_id (Some (''0x'' @ hex_nat n)) = Inr (Some (str_nat n))"
proof -
  have num: "numeral_of 16 (hex_nat n)" by (rule hex_nat_numeral)
  have ne: "hex_nat n \<noteq> []" by (rule hex_nat_nonempty)
  let ?v = "''0x'' @ hex_nat n"
  obtain e where e: "digit_value (last (hex_nat n)) = Some e" "e < 16"
    using numeral_last [OF num ne] by auto
  note b = hex_digit_plain [OF e]
  have l: "last ?v = last (hex_nat n)" using ne by simp
  have h: "hd ?v = CHR ''0''" by simp
  have h1: "\<not> str_isspace (hd ?v)" unfolding h by (simp add: str_isspace_def)
  have l1: "\<not> str_isspace (last ?v)" "last ?v \<noteq> CHR 0x22" "last ?v \<noteq> CHR 0x27"
    unfolding l using b by simp_all
  have 1: "strip_chars str_isspace ?v = ?v"
    by (rule strip_chars_id) (use h1 l1 in blast)
  have 2: "strip_chars (\<lambda>c. c = CHR 0x22) ?v = ?v"
    by (rule strip_chars_id, rule disjI2) (use l1 in \<open>simp only: h\<close>, simp)
  have 3: "strip_chars (\<lambda>c. c = CHR 0x27) ?v = ?v"
    by (rule strip_chars_id, rule disjI2) (use l1 in \<open>simp only: h\<close>, simp)
  have 4: "py_int 16 ?v = Inr (int n)"
    using py_int_hex_prefixed [OF num ne] by (simp add: hex_nat_value)
  have 5: "startswith ?v ''0x''" by (simp add: startswith_def)
  show ?thesis
    unfolding normalize_token_id_def option.case Let_def 1 2 3 4
    using 5 by (simp add: str_int_nat)
qed

lemma normalize_token_id_passthrough:
  assumes v: "v = strip_chars (\<lambda>c. c = CHR 0x27) t" and "clean_ends v"
  shows "strip_chars (\<lambda>c. c = CHR 0x27) (strip_chars (\<lambda>c. c = CHR 0x22) (strip_chars str_isspace v)) = v"
proof (cases "v = []")
  case True
  then show ?thesis by (simp add: strip_chars_def)
next
  case False
  have 1: "strip_chars str_isspace v = v"
    by (rule strip_chars_id) (use assms(2) False in \<open>simp add: clean_ends_def\<close>)
  have 2: "strip_chars (\<lambda>c. c = CHR 0x22) v = v"
    by (rule strip_chars_id) (use assms(2) False in \<open>simp add: clean_ends_def\<close>)
  have 3: "strip_chars (\<lambda>c. c = CHR 0x27) v = v"
    by (rule strip_chars_id) (use strip_chars_ends [of "\<lambda>c. c = CHR 0x27" t] False v in simp)
  show ?thesis by (simp add: 1 2 3)
qed

lemma normalize_token_id_fixed:
  assumes "normalize_token_id x = Inr r" and "\<forall>v. r = Some v \<longrightarrow> clean_ends v"
  shows "normalize_token_id r = Inr r"
proof (cases x)
  case None
  then show ?thesis using assms(1) by (simp add: normalize_token_id_def)
next
  case (Some s)
  define v where "v = strip_chars (\<lambda>c. c = CHR 0x27)
                     (strip_chars (\<lambda>c. c = CHR 0x22) (strip_chars str_isspace s))"
  have eq: "normalize_token_id x =
      (if v = [] then Inr None
       else if startswith v ''0x'' then
         (case py_int 16 v of Inl e \<Rightarrow> Inl e | Inr n \<Rightarrow> Inr (Some (str_int n)))
       else if isdigit v then
         (case py_int 10 v of Inl e \<Rightarrow> Inl e | Inr n \<Rightarrow> Inr (Some (str_int n)))
       else Inr (Some v))"
    by (simp add: Some normalize_token_id_def v_def Let_def)
  consider (empty) "v = []"
    | (hex) "v \<noteq> []" "startswith v ''0x''"
    | (dec) "v \<noteq> []" "\<not> startswith v ''0x''" "isdigit v"
    | (pass) "v \<noteq> []" "\<not> startswith v ''0x''" "\<not> isdigit v"
    by blast
  then show ?thesis
  proof cases
    case empty
    then have "r = None" using assms(1) eq by simp
    then show ?thesis by (simp add: normalize_token_id_def)
  next
    case hex
    then obtain n where n: "py_int 16 v = Inr n" and r: "r = Some (str_int n)"
      using assms(1) eq by (auto split: sum.splits)
    have "hd v = CHR ''0''" using hex by (cases v) (auto simp: startswith_def)
    then have "0 \<le> n"
      using py_int_nonneg [OF n hex(1)] by (simp add: int_isspace_def)
    then have "str_int n = str_nat (nat n)" by (simp add: str_int_def)
    then show ?thesis using r by (simp add: normalize_token_id_decimal)
  next
    case dec
    then obtain n where n: "py_int 10 v = Inr n" and r: "r = Some (str_int n)"
      using assms(1) eq by (auto split: sum.splits)
    have "isdigit_char (hd v)" using dec by (cases v) (auto simp: isdigit_def)
    then have "\<not> int_isspace (hd v)" "hd v \<noteq> CHR ''-''"
      by (auto simp: isdigit_char_def int_isspace_def)
    then have "0 \<le> n" using py_int_nonneg [OF n dec(1)] by simp
    then have "str_int n = str_nat (nat n)" by (simp add: str_int_def)
    then show ?thesis using r by (simp add: normalize_token_id_decimal)
  next
    case pass
    then have r: "r = Some v" using assms(1) eq by simp
    then have c: "clean_ends v" using assms(2) by simp
    have "strip_chars (\<lambda>c. c = CHR 0x27) (strip_chars (\<lambda>c. c = CHR 0x22) (strip_chars str_isspace v)) = v"
      by (rule normalize_token_id_passthrough [OF _ c]) (simp add: v_def)
    then show ?thesis using pass r by (simp add: normalize_token_id_def)
  qed
qed

text \<open>
  Claim C7, as amended. Normalizing twice gives what normalizing once gives whenever
  the first result neither begins nor ends with whitespace or a double quote (the
  results of the hexadecimal and of the decimal branch always are of that kind), and
  an exception of the first call is the result of both. For every natural number
  \<open>n\<close>, the hexadecimal encoding \<open>0x\<close> followed by the digits of \<open>n\<close> and the
  decimal encoding of \<open>n\<close> normalize to the same string, the decimal numeral of \<open>n\<close>.
\<close>

theorem normalize_token_id_idempotent_clean:
  "((\<forall>v. normalize_token_id x = Inr (Some v) \<longrightarrow> clean_ends v)
      \<longrightarrow> normalize_twice x = normalize_token_id x)
   \<and> normalize_token_id (Some (''0x'' @ hex_nat n)) = Inr (Some (str_nat n))
   \<and> normalize_token_id (Some (str_nat n)) = Inr (Some (str_nat n))"
proof (intro conjI impI)
  assume c: "\<forall>v. normalize_token_id x = Inr (Some v) \<longrightarrow> clean_ends v"
  show "normalize_twice x = normalize_token_id x"
  proof (cases "normalize_token_id x")
    case (Inl e)
    then show ?thesis by (simp add: normalize_twice_def)
  next
    case (Inr r)
    then have "normalize_token_id r = Inr r"
      using c by (intro normalize_token_id_fixed [of x]) auto
    then show ?thesis using Inr by (simp add: normalize_twice_def)
  qed
next
  show "normalize_token_id (Some (''0x'' @ hex_nat n)) = Inr (Some (str_nat n))"
    by (rule normalize_token_id_hex)
next
  show "normalize_token_id (Some (str_nat n)) = Inr (Some (str_nat n))"
    by (rule normalize_token_id_decimal)
qed

lemma normalize_token_id_example:
  "normalize_token_id (Some '' 0x1f '') = Inr (Some ''31'')"
  by (simp add: normalize_token_id_def strip_chars_def str_isspace_def startswith_def
      py_int_def int_isspace_def digit_value_def str_int_def str_nat.simps digit_char_def)

theorem normalize_token_id_idempotent_clean_witness:
  "normalize_token_id (Some '' 0x1f '') = Inr (Some ''31'')
   \<and> clean_ends ''31''
   \<and> normalize_twice (Some '' 0x1f '') = Inr (Some ''31'')
   \<and> normalize_token_id (Some (''0x'' @ hex_nat 31)) = Inr (Some ''31'')
   \<and> normalize_token_id (Some (str_nat 31)) = Inr (Some ''31'')"
proof -
  have c: "clean_ends ''31''" by (simp add: clean_ends_def str_isspace_def)
  then have h: "\<forall>v. normalize_token_id (Some '' 0x1f '') = Inr (Some v) \<longrightarrow> clean_ends v"
    by (simp add: normalize_token_id_example)
  have s: "str_nat 31 = ''31''" by (simp add: str_nat.simps digit_char_def)
  show ?thesis
    using h c normalize_token_id_idempotent_clean [of "Some '' 0x1f ''" 31]
    by (simp add: normalize_token_id_example s)
qed

text \<open>
  Claim C7 as stated fails: the token id string made of a double quote, a blank, the
  letter a and a double quote normalizes to blank-a, and blank-a normalizes to a.
\<close>

theorem normalize_token_id_not_idempotent:
  "normalize_twice (Some [CHR 0x22, CHR '' '', CHR ''a'', CHR 0x22])
     \<noteq> normalize_token_id (Some [CHR 0x22, CHR '' '', CHR ''a'', CHR 0x22])"
  by (simp add: normalize_twice_def normalize_token_id_def strip_chars_def str_isspace_def
      startswith_def isdigit_def isdigit_char_def)

section \<open>The store: trades\<close>

lemma sql_insert_trade_step:
  assumes "sql_insert_trade c ts p = Inr c1"
  shows "bindable p"
    and "\<exists>new. trades (live c1) = trades (live c) @ new
               \<and> total_changes c1 = total_changes c + length new"
    and "null_key p \<or> trade_key p \<in> stored_keys c1"
    and "committed c1 = committed c"
    and "sync_state (live c1) = sync_state (live c)"
    and "markets (live c1) = markets (live c)"
    and "events (live c1) = events (live c)"
  using assms
  by (auto simp: sql_insert_trade_def bindable_def null_key_def stored_keys_def Let_def
        trade_key_def trade_params.defs split: if_splits)

lemma sql_insert_trade_skip:
  assumes "bindable p" and "null_key p \<or> trade_key p \<in> stored_keys c"
  shows "\<exists>c1. sql_insert_trade c ts p = Inr c1 \<and> trades (live c1) = trades (live c)
              \<and> total_changes c1 = total_changes c"
  using assms
  by (auto simp: sql_insert_trade_def bindable_def null_key_def stored_keys_def Let_def)

lemma executemany_effect:
  assumes "executemany_insert_trades c ts ps = (None, c1)"
  shows "(\<forall>p \<in> set ps. bindable p \<and> (null_key p \<or> trade_key p \<in> stored_keys c1))
         \<and> stored_keys c \<subseteq> stored_keys c1
         \<and> (\<exists>new. trades (live c1) = trades (live c) @ new
                   \<and> total_changes c1 = total_changes c + length new)"
  using assms
proof (induction ps arbitrary: c)
  case Nil
  then show ?case by simp
next
  case (Cons p ps)
  from Cons.prems obtain c' where s: "sql_insert_trade c ts p = Inr c'"
    and r: "executemany_insert_trades c' ts ps = (None, c1)"
    by (auto split: sum.splits)
  note st = sql_insert_trade_step [OF s]
  note ih = Cons.IH [OF r]
  from st(2) obtain n1 where n1: "trades (live c') = trades (live c) @ n1"
    "total_changes c' = total_changes c + length n1" by blast
  from ih obtain n2 where n2: "trades (live c1) = trades (live c') @ n2"
    "total_changes c1 = total_changes c' + length n2" by blast
  have sub1: "stored_keys c \<subseteq> stored_keys c'" using n1(1) by (auto simp: stored_keys_def)
  have sub2: "stored_keys c' \<subseteq> stored_keys c1" using ih by blast
  have a: "null_key p \<or> trade_key p \<in> stored_keys c1" using st(3) sub2 by blast
  have b: "\<forall>q \<in> set ps. bindable q \<and> (null_key q \<or> trade_key q \<in> stored_keys c1)"
    using ih by blast
  have c: "trades (live c1) = trades (live c) @ (n1 @ n2)
           \<and> total_changes c1 = total_changes c + length (n1 @ n2)"
    using n1 n2 by simp
  have d: "stored_keys c \<subseteq> stored_keys c1" using sub1 sub2 by blast
  show ?case
  proof (intro conjI)
    show "\<forall>q \<in> set (p # ps). bindable q \<and> (null_key q \<or> trade_key q \<in> stored_keys c1)"
      using a b st(1) by simp
    show "stored_keys c \<subseteq> stored_keys c1" by (rule d)
    show "\<exists>new. trades (live c1) = trades (live c) @ new
                \<and> total_changes c1 = total_changes c + length new"
      using c by blast
  qed
qed

lemma executemany_skip_all:
  assumes "\<forall>p \<in> set ps. bindable p \<and> (null_key p \<or> trade_key p \<in> stored_keys c)"
  shows "\<exists>c1. executemany_insert_trades c ts ps = (None, c1)
              \<and> trades (live c1) = trades (live c) \<and> total_changes c1 = total_changes c"
  using assms
proof (induction ps arbitrary: c)
  case Nil
  then show ?case by simp
next
  case (Cons p ps)
  then have "bindable p" "null_key p \<or> trade_key p \<in> stored_keys c" by simp_all
  from sql_insert_trade_skip [OF this, of ts] obtain c' where
    s: "sql_insert_trade c ts p = Inr c'" and t: "trades (live c') = trades (live c)"
    and n: "total_changes c' = total_changes c" by blast
  have "stored_keys c' = stored_keys c" using t by (simp add: stored_keys_def)
  then have "\<forall>q \<in> set ps. bindable q \<and> (null_key q \<or> trade_key q \<in> stored_keys c')"
    using Cons.prems by simp
  from Cons.IH [OF this] obtain c1 where
    "executemany_insert_trades c' ts ps = (None, c1)" "trades (live c1) = trades (live c')"
    "total_changes c1 = total_changes c'" by blast
  then show ?case using s t n by simp
qed

lemma insert_trades_second_call:
  assumes "insert_trades c ts batch = (Inr n, c1)"
  shows "(\<exists>c2. insert_trades c1 ts' batch = (Inr 0, c2) \<and> trades (live c2) = trades (live c1))
         \<and> int (length (trades (live c1))) = int (length (trades (live c))) + n"
proof (cases "batch = []")
  case True
  then show ?thesis using assms by (simp add: insert_trades_def)
next
  case False
  from assms False obtain ps c' where ps: "trade_tuples batch = Inr ps"
    and ex: "executemany_insert_trades c ts ps = (None, c')"
    and c1: "c1 = commit c'" and n: "n = int (total_changes c') - int (total_changes c)"
    by (auto simp: insert_trades_def Let_def commit_def split: sum.splits prod.splits option.splits)
  note eff = executemany_effect [OF ex]
  have live: "live c1 = live c'" "total_changes c1 = total_changes c'"
    by (simp_all add: c1 commit_def)
  have sk: "stored_keys c1 = stored_keys c'" by (simp add: stored_keys_def live)
  have "\<forall>p \<in> set ps. bindable p \<and> (null_key p \<or> trade_key p \<in> stored_keys c1)"
    using eff sk by simp
  from executemany_skip_all [OF this, of ts'] obtain c2 where
    c2: "executemany_insert_trades c1 ts' ps = (None, c2)" "trades (live c2) = trades (live c1)"
    "total_changes c2 = total_changes c1" by blast
  have "insert_trades c1 ts' batch = (Inr 0, commit c2)"
    using False ps c2 by (simp add: insert_trades_def Let_def commit_def)
  moreover have "trades (live (commit c2)) = trades (live c1)" using c2 by (simp add: commit_def)
  moreover have "int (length (trades (live c1))) = int (length (trades (live c))) + n"
    using eff n live by auto
  ultimately show ?thesis by blast
qed

lemma sql_insert_trade_distinct:
  assumes "sql_insert_trade c ts p = Inr c1" and "distinct (map trade_key (trades (live c)))"
  shows "distinct (map trade_key (trades (live c1)))"
  using assms
  by (auto simp: sql_insert_trade_def Let_def trade_key_def trade_params.defs split: if_splits)

lemma executemany_distinct:
  assumes "executemany_insert_trades c ts ps = (None, c1)"
    and "distinct (map trade_key (trades (live c)))"
  shows "distinct (map trade_key (trades (live c1)))"
  using assms
proof (induction ps arbitrary: c)
  case Nil
  then show ?case by simp
next
  case (Cons p ps)
  from Cons.prems(1) obtain c' where s: "sql_insert_trade c ts p = Inr c'"
    and r: "executemany_insert_trades c' ts ps = (None, c1)"
    by (auto split: sum.splits)
  show ?case
    by (rule Cons.IH [OF r]) (rule sql_insert_trade_distinct [OF s Cons.prems(2)])
qed

lemma insert_trades_distinct:
  assumes "insert_trades c ts batch = (Inr n, c1)"
    and "distinct (map trade_key (trades (live c)))"
  shows "distinct (map trade_key (trades (live c1)))"
proof (cases "batch = []")
  case True
  then show ?thesis using assms by (simp add: insert_trades_def)
next
  case False
  from assms(1) False obtain ps c' where
    ex: "executemany_insert_trades c ts ps = (None, c')" and c1: "c1 = commit c'"
    by (auto simp: insert_trades_def Let_def commit_def split: sum.splits prod.splits option.splits)
  show ?thesis using executemany_distinct [OF ex assms(2)] by (simp add: c1 commit_def)
qed

lemma example_tuple:
  "trade_tuple example_trade = Inr
     \<lparr>tr_market_id = Some 1, tr_tx_hash = Some ''0xabc'', tr_log_index = Some 7,
      tr_block_number = Some 100, tr_block_hash = Some ''0xdef'',
      tr_timestamp = Some ''2024-01-01T00:00:00'', tr_maker = Some ''0xaa'',
      tr_taker = Some ''0xbb'', tr_side = Some ''BUY'', tr_outcome = Some ''YES'',
      tr_price = Some ''0.5'', tr_size = Some ''2'', tr_token_id = Some ''555'',
      tr_maker_asset_id = Some ''0'', tr_taker_asset_id = Some ''555'',
      tr_maker_amount_filled = Some ''1000000'', tr_taker_amount_filled = Some ''2000000'',
      tr_exchange_address = Some ''0xee''\<rparr>"
  by (simp add: trade_tuple_def example_trade_def text_or_zero_def str_int_def
      str_nat.simps digit_char_def normalize_token_id_def strip_chars_def str_isspace_def
      startswith_def isdigit_def isdigit_char_def py_int_def int_isspace_def digit_value_def)

lemma example_first_insert:
  "fst (insert_trades init_db ''t0'' [example_trade, example_trade]) = Inr 1"
  by (simp add: insert_trades_def example_tuple Let_def sql_insert_trade_def init_db_def
      empty_tables_def sqlite_int_opt_def sqlite_int_def new_rowid_def trade_key_def
      trade_params.defs commit_def)

text \<open>
  Claim C2. After a call of \<open>insert_trades\<close> that returned, a second call with the same
  batch returns 0 and leaves the rows of \<open>trades\<close> as they are. In general a call that
  returns \<open>n\<close> has added exactly \<open>n\<close> rows (rows whose key (tx_hash, log_index) is
  stored already are ignored and not counted), and the keys of the stored rows stay
  pairwise distinct.
\<close>

theorem insert_trades_idempotent:
  assumes "insert_trades c ts batch = (Inr n, c1)"
  shows "(\<exists>c2. insert_trades c1 ts' batch = (Inr 0, c2) \<and> trades (live c2) = trades (live c1))
         \<and> int (length (trades (live c1))) = int (length (trades (live c))) + n
         \<and> (distinct (map trade_key (trades (live c)))
              \<longrightarrow> distinct (map trade_key (trades (live c1))))"
  using insert_trades_second_call [OF assms] insert_trades_distinct [OF assms] by blast

theorem insert_trades_idempotent_witness:
  "fst (insert_trades init_db ''t0'' [example_trade, example_trade]) = Inr 1
   \<and> (\<exists>c2. insert_trades (snd (insert_trades init_db ''t0'' [example_trade, example_trade]))
              ''t1'' [example_trade, example_trade] = (Inr 0, c2)
            \<and> trades (live c2)
                = trades (live (snd (insert_trades init_db ''t0'' [example_trade, example_trade]))))
   \<and> length (trades (live (snd (insert_trades init_db ''t0'' [example_trade, example_trade])))) = 1
   \<and> distinct (map trade_key
         (trades (live (snd (insert_trades init_db ''t0'' [example_trade, example_trade])))))"
proof -
  let ?r = "insert_trades init_db ''t0'' [example_trade, example_trade]"
  have e: "?r = (Inr 1, snd ?r)"
    using example_first_insert by (metis prod.collapse)
  have "length (trades (live init_db)) = 0" "distinct (map trade_key (trades (live init_db)))"
    by (simp_all add: init_db_def empty_tables_def)
  then show ?thesis
    using insert_trades_idempotent [OF e, of "''t1''"] example_first_insert by simp
qed

section \<open>The store: events and markets\<close>







lemmas token_eval = normalize_token_id_def strip_chars_def str_isspace_def
      startswith_def isdigit_def isdigit_char_def py_int_def int_isspace_def digit_value_def
      str_int_def str_nat.simps digit_char_def


lemma example_market_first:
  "upsert_market init_db ''t0'' example_market =
     (Inr 1,
      \<lparr>live = \<lparr>events = [],
                markets = [\<lparr>mk_id = 1, mk_event_id = Some 1, mk_slug = ''will-a-win'',
                    mk_title = Some ''Will A win?'', mk_description = None,
                    mk_condition_id = Some ''0xc0'', mk_question_id = None, mk_oracle = None,
                    mk_collateral_token = Some ''0x27'', mk_yes_token_id = Some ''555'',
                    mk_no_token_id = Some ''556'', mk_enable_neg_risk = 0,
                    mk_status = Some ''unknown'', mk_created_at = Some ''2023-12-02'',
                    mk_updated_at = Some ''t0''\<rparr>],
                trades = [], sync_state = Map.empty,
                seq_events = 0, seq_markets = 1, seq_trades = 0\<rparr>,
       committed = \<lparr>events = [],
                markets = [\<lparr>mk_id = 1, mk_event_id = Some 1, mk_slug = ''will-a-win'',
                    mk_title = Some ''Will A win?'', mk_description = None,
                    mk_condition_id = Some ''0xc0'', mk_question_id = None, mk_oracle = None,
                    mk_collateral_token = Some ''0x27'', mk_yes_token_id = Some ''555'',
                    mk_no_token_id = Some ''556'', mk_enable_neg_risk = 0,
                    mk_status = Some ''unknown'', mk_created_at = Some ''2023-12-02'',
                    mk_updated_at = Some ''t0''\<rparr>],
                trades = [], sync_state = Map.empty,
                seq_events = 0, seq_markets = 1, seq_trades = 0\<rparr>,
       total_changes = 1\<rparr>)"
  by (simp add: upsert_market_def sql_upsert_market_def init_db_def empty_tables_def
      example_market_def new_rowid_def flag_int_def commit_def status_or_unknown_def
      sqlite_int_opt_def sqlite_int_def token_eval)



section \<open>The store: lookup by token id\<close>

lemma set_rows_by_token_id:
  "set (rows_by_token_id db t) = {m \<in> set (markets db). holds_token t m}"
  by (auto simp: rows_by_token_id_def holds_token_def)

text \<open>
  Claim C5, as amended. \<open>fetch_market_by_token_id\<close> returns at most one row: when
  the id normalizes to a token id, it returns no row exactly when no market row holds
  that id as its YES or NO token id, and a row it returns is a stored row that holds
  the id; an id that normalizes to \<open>None\<close> gives no row, and an exception of the
  normalization is the result. The store itself does not keep a token id to one market.
\<close>

theorem fetch_market_by_token_id_one:
  "(normalize_token_id tok = Inr (Some t) \<longrightarrow>
      (fetch_market_by_token_id c tok = Inr None
         \<longleftrightarrow> \<not> list_ex (holds_token t) (markets (live c)))
      \<and> (\<forall>m. fetch_market_by_token_id c tok = Inr (Some m)
             \<longrightarrow> m \<in> set (markets (live c)) \<and> holds_token t m)
      \<and> (\<exists>r. fetch_market_by_token_id c tok = Inr r))
   \<and> (normalize_token_id tok = Inr None \<longrightarrow> fetch_market_by_token_id c tok = Inr None)
   \<and> (normalize_token_id tok = Inl e \<longrightarrow> fetch_market_by_token_id c tok = Inl e)"
proof (intro conjI impI allI)
  assume n: "normalize_token_id tok = Inr (Some t)"
  let ?rows = "rows_by_token_id (live c) t"
  have s: "set ?rows = {m \<in> set (markets (live c)). holds_token t m}"
    by (rule set_rows_by_token_id)
  show "fetch_market_by_token_id c tok = Inr None
         \<longleftrightarrow> \<not> list_ex (holds_token t) (markets (live c))"
  proof (cases ?rows)
    case Nil
    then have "\<not> list_ex (holds_token t) (markets (live c))"
      using s by (auto simp: list_ex_iff)
    then show ?thesis using Nil n by (simp add: fetch_market_by_token_id_def)
  next
    case (Cons r rs)
    then have "r \<in> set ?rows" by simp
    then have "list_ex (holds_token t) (markets (live c))" using s by (auto simp: list_ex_iff)
    then show ?thesis using Cons n by (simp add: fetch_market_by_token_id_def)
  qed
  show "\<exists>r. fetch_market_by_token_id c tok = Inr r"
    using n by (cases ?rows) (simp_all add: fetch_market_by_token_id_def)
  fix m assume f: "fetch_market_by_token_id c tok = Inr (Some m)"
  then obtain rs where "?rows = m # rs"
    using n by (cases ?rows) (simp_all add: fetch_market_by_token_id_def)
  then have "m \<in> set ?rows" by simp
  then have ms: "m \<in> set (markets (live c)) \<and> holds_token t m" using s by simp
  from ms show "m \<in> set (markets (live c))" by simp
  from ms show "holds_token t m" by simp
next
  assume "normalize_token_id tok = Inr None"
  then show "fetch_market_by_token_id c tok = Inr None" by (simp add: fetch_market_by_token_id_def)
next
  assume "normalize_token_id tok = Inl e"
  then show "fetch_market_by_token_id c tok = Inl e" by (simp add: fetch_market_by_token_id_def)
qed

lemma two_markets_store_rows:
  "map (\<lambda>m. (mk_id m, mk_slug m, mk_yes_token_id m, mk_no_token_id m))
       (markets (live two_markets_store))
     = [(1, ''will-a-win'', Some ''555'', Some ''556''),
        (2, ''will-b-win'', Some ''555'', Some ''556'')]"
  unfolding two_markets_store_def
  by (simp only: example_market_first snd_conv)
     (simp add: upsert_market_def sql_upsert_market_def example_market_def
        new_rowid_def flag_int_def commit_def status_or_unknown_def
        sqlite_int_opt_def sqlite_int_def token_eval)

text \<open>
  Claim C5 as stated fails: two upserts from the empty store leave two market rows
  with the YES token id 555.
\<close>

theorem token_id_in_two_markets:
  "fst (upsert_market init_db ''t0'' example_market) = Inr 1
   \<and> fst (upsert_market (snd (upsert_market init_db ''t0'' example_market)) ''t1''
            (example_market\<lparr>mp_slug := Some ''will-b-win''\<rparr>)) = Inr 2
   \<and> map mk_slug (filter (holds_token ''555'') (markets (live two_markets_store)))
        = [''will-a-win'', ''will-b-win'']"
proof -
  have 1: "fst (upsert_market init_db ''t0'' example_market) = Inr 1"
    by (simp add: example_market_first)
  have 2: "fst (upsert_market (snd (upsert_market init_db ''t0'' example_market)) ''t1''
            (example_market\<lparr>mp_slug := Some ''will-b-win''\<rparr>)) = Inr 2"
    by (simp only: example_market_first snd_conv)
       (simp add: upsert_market_def sql_upsert_market_def example_market_def
          new_rowid_def flag_int_def commit_def status_or_unknown_def
          sqlite_int_opt_def sqlite_int_def token_eval)
  obtain a b where ab: "markets (live two_markets_store) = [a, b]"
    and a: "mk_slug a = ''will-a-win''" "mk_yes_token_id a = Some ''555''"
    and b: "mk_slug b = ''will-b-win''" "mk_yes_token_id b = Some ''555''"
    using two_markets_store_rows by (auto simp: map_eq_Cons_conv)
  have 3: "map mk_slug (filter (holds_token ''555'') (markets (live two_markets_store)))
        = [''will-a-win'', ''will-b-win'']"
    by (simp add: ab a b holds_token_def)
  show ?thesis using 1 2 3 by blast
qed

theorem fetch_market_by_token_id_one_witness:
  "normalize_token_id (Some ''0x22b'') = Inr (Some ''555'')
   \<and> (\<exists>m. fetch_market_by_token_id two_markets_store (Some ''0x22b'') = Inr (Some m)
            \<and> m \<in> set (markets (live two_markets_store)) \<and> holds_token ''555'' m
            \<and> mk_slug m = ''will-a-win'')
   \<and> fetch_market_by_token_id two_markets_store (Some ''77'') = Inr None"
proof -
  obtain a b where ab: "markets (live two_markets_store) = [a, b]"
    and a: "mk_slug a = ''will-a-win''" "mk_yes_token_id a = Some ''555''" "mk_no_token_id a = Some ''556''"
    and b: "mk_slug b = ''will-b-win''" "mk_yes_token_id b = Some ''555''" "mk_no_token_id b = Some ''556''"
    using two_markets_store_rows by (auto simp: map_eq_Cons_conv)
  have n: "normalize_token_id (Some ''0x22b'') = Inr (Some ''555'')" by (simp add: token_eval)
  have n2: "normalize_token_id (Some ''77'') = Inr (Some ''77'')" by (simp add: token_eval)
  have f: "fetch_market_by_token_id two_markets_store (Some ''0x22b'') = Inr (Some a)"
    by (simp add: fetch_market_by_token_id_def n rows_by_token_id_def ab a b)
  have no: "\<not> list_ex (holds_token ''77'') (markets (live two_markets_store))"
    by (simp add: ab a b holds_token_def)
  note t1 = fetch_market_by_token_id_one [of "Some ''0x22b''" "''555''" two_markets_store]
  note t2 = fetch_market_by_token_id_one [of "Some ''77''" "''77''" two_markets_store]
  from t1 n f have "a \<in> set (markets (live two_markets_store)) \<and> holds_token ''555'' a" by blast
  moreover from t2 n2 no have "fetch_market_by_token_id two_markets_store (Some ''77'') = Inr None"
    by blast
  ultimately show ?thesis using n f a by blast
qed

section \<open>Block range resolution\<close>

text \<open>
  Claim C4, as amended. The lower bound is the explicit one, else the reference
  transaction's block, else the persisted cursor plus one, else the chain head minus
  ten but never below zero. The upper bound is the explicit one, else the reference
  transaction's block, else the explicit lower bound, else the chain head. The call
  fails, with \<open>ValueError\<close>, exactly when the lower bound exceeds the upper bound.
\<close>

theorem determine_block_range_precedence:
  "determine_block_range block_number c from_block to_block tx_block =
     (let lo = (case from_block of Some f \<Rightarrow> f | None \<Rightarrow>
                 (case tx_block of Some b \<Rightarrow> b | None \<Rightarrow>
                   (case get_sync_state c ''trade_sync'' of
                      Some n \<Rightarrow> n + 1
                    | None \<Rightarrow> max 0 (block_number 0 - 10))));
          hi = (case to_block of Some t \<Rightarrow> t | None \<Rightarrow>
                 (case tx_block of Some b \<Rightarrow> b | None \<Rightarrow>
                   (case from_block of Some f \<Rightarrow> f | None \<Rightarrow>
                     (case get_sync_state c ''trade_sync'' of
                        Some n \<Rightarrow> block_number 0
                      | None \<Rightarrow> block_number 1))))
      in if lo > hi then Inl ValueError else Inr (lo, hi))"
  by (cases from_block; cases to_block; cases tx_block; cases "get_sync_state c ''trade_sync''")
     (simp_all add: determine_block_range_def Let_def)

text \<open>
  Claim C4 as stated fails below block ten: with no bound, no reference transaction,
  no cursor and the chain head at block 5, the range starts at 0, not at 5 - 10.
\<close>

theorem determine_block_range_low_head:
  "determine_block_range (\<lambda>k. 5) init_db None None None = Inr (0, 5)
   \<and> determine_block_range (\<lambda>k. 5) init_db None None None \<noteq> Inr (5 - 10, 5)"
  by (simp add: determine_block_range_def get_sync_state_def init_db_def empty_tables_def)

section \<open>The indexing run: what a step leaves alone\<close>

lemma same_trades_and_cursor_refl [simp]: "same_trades_and_cursor c c"
  by (simp add: same_trades_and_cursor_def)

lemma same_trades_and_cursor_trans:
  "same_trades_and_cursor a b \<Longrightarrow> same_trades_and_cursor b c \<Longrightarrow> same_trades_and_cursor a c"
  by (simp add: same_trades_and_cursor_def)

lemma upsert_event_frame:
  "upsert_event c now p = (r, c1) \<Longrightarrow> same_trades_and_cursor c c1"
  by (auto simp: upsert_event_def sql_upsert_event_def same_trades_and_cursor_def Let_def commit_def
        split: sum.splits option.splits if_splits)

lemma upsert_market_frame:
  "upsert_market c now p = (r, c1) \<Longrightarrow> same_trades_and_cursor c c1"
  by (auto simp: upsert_market_def sql_upsert_market_def same_trades_and_cursor_def Let_def commit_def
        split: sum.splits option.splits if_splits)

lemma upsert_markets_frame:
  "upsert_markets env ms ids w = (r, w1) \<Longrightarrow>
     same_trades_and_cursor (w_conn w) (w_conn w1) \<and> w_trace w1 = w_trace w"
proof (induction ms arbitrary: ids w)
  case Nil
  then show ?case by auto
next
  case (Cons m ms)
  show ?case
  proof (cases m)
    case None
    then show ?thesis using Cons by simp
  next
    case (Some payload)
    obtain r0 c where u: "upsert_market (w_conn w) (env_utc_now_iso env (w_tick w)) payload = (r0, c)"
      by (cases "upsert_market (w_conn w) (env_utc_now_iso env (w_tick w)) payload")
    note f = upsert_market_frame [OF u]
    show ?thesis
    proof (cases r0)
      case (Inl e)
      then show ?thesis using Cons.prems Some u f by auto
    next
      case (Inr i)
      let ?w = "w\<lparr>w_conn := c, w_tick := Suc (w_tick w)\<rparr>"
      have "upsert_markets env ms (ids @ [i]) ?w = (r, w1)"
        using Cons.prems Some u Inr by simp
      from Cons.IH [OF this] show ?thesis
        using f by (auto intro: same_trades_and_cursor_trans)
    qed
  qed
qed

lemma discover_markets_frame:
  assumes "discover_markets env w slug = (r, w1)"
  shows "same_trades_and_cursor (w_conn w) (w_conn w1)"
    and "w_trace w1 = w_trace w @ (if given slug then [Discovery (the slug)] else [])"
proof -
  show "same_trades_and_cursor (w_conn w) (w_conn w1)"
  proof (cases "given slug")
    case False
    then show ?thesis using assms
      by (auto simp: discover_markets_def given_def split: option.splits if_splits)
  next
    case True
    then obtain s where s: "slug = Some s" "s \<noteq> []" by (auto simp: given_def split: option.splits)
    let ?w1 = "w\<lparr>w_tick := Suc (w_tick w), w_trace := w_trace w @ [Discovery s]\<rparr>"
    show ?thesis
    proof (cases "env_gamma env (w_tick w) s")
      case (Inl e)
      then show ?thesis using assms s by (auto simp: discover_markets_def)
    next
      case (Inr resp)
      define ep where "ep = (if given (ep_slug (gr_event resp)) then gr_event resp
                         else (gr_event resp)\<lparr>ep_slug := Some s\<rparr>)"
      obtain r0 c where u: "upsert_event (w_conn ?w1) (env_utc_now_iso env (w_tick ?w1)) ep = (r0, c)"
        by (cases "upsert_event (w_conn ?w1) (env_utc_now_iso env (w_tick ?w1)) ep")
      note f = upsert_event_frame [OF u]
      show ?thesis
      proof (cases r0)
        case (Inl e)
        then show ?thesis using assms s Inr u f
          by (auto simp: discover_markets_def Let_def ep_def [symmetric])
      next
        case (Inr i)
        let ?w2 = "?w1\<lparr>w_conn := c, w_tick := Suc (w_tick ?w1)\<rparr>"
        obtain r2 w2 where m: "upsert_markets env
              (gr_markets resp i (flag_int False (ep_neg_risk ep) = 1)) [] ?w2 = (r2, w2)"
          by (cases "upsert_markets env
              (gr_markets resp i (flag_int False (ep_neg_risk ep) = 1)) [] ?w2")
        from upsert_markets_frame [OF m] have f2: "same_trades_and_cursor c (w_conn w2)" by simp
        have "w_conn w1 = w_conn w2"
          using assms s \<open>env_gamma env (w_tick w) s = Inr resp\<close> u Inr m
          by (auto simp: discover_markets_def Let_def ep_def [symmetric] split: sum.splits)
        then show ?thesis using f f2 by (auto intro: same_trades_and_cursor_trans)
      qed
    qed
  qed
  show "w_trace w1 = w_trace w @ (if given slug then [Discovery (the slug)] else [])"
  proof (cases "given slug")
    case False
    then show ?thesis using assms
      by (auto simp: discover_markets_def given_def split: option.splits if_splits)
  next
    case True
    then obtain s where s: "slug = Some s" "s \<noteq> []" by (auto simp: given_def split: option.splits)
    have "\<And>ms ids w' r' w''. upsert_markets env ms ids w' = (r', w'') \<Longrightarrow> w_trace w'' = w_trace w'"
      using upsert_markets_frame by blast
    then show ?thesis using assms s True
      by (auto simp: discover_markets_def Let_def split: sum.splits prod.splits)
  qed
qed

section \<open>The indexing run: one log at a time\<close>

lemma adds_discoveries_refl [simp]: "adds_discoveries w w n"
  by (simp add: adds_discoveries_def)

lemma adds_discoveries_trans:
  "adds_discoveries a b m \<Longrightarrow> adds_discoveries b c n \<Longrightarrow> adds_discoveries a c (m + n)"
  unfolding adds_discoveries_def
  by (elim exE conjE, rule_tac x = "new @ newa" in exI) auto

lemma adds_discoveries_mono:
  "adds_discoveries a b m \<Longrightarrow> m \<le> n \<Longrightarrow> adds_discoveries a b n"
  unfolding adds_discoveries_def by auto

lemma discover_markets_adds:
  assumes "discover_markets env w slug = (r, w1)"
  shows "adds_discoveries w w1 1"
  using discover_markets_frame(2) [OF assms]
  by (auto simp: adds_discoveries_def is_discovery_def)

lemma ensure_market_cached_effect:
  assumes "ensure_market_cached env w tok slug att = (r, w1)"
  shows "same_trades_and_cursor (w_conn w) (w_conn w1)"
    and "adds_discoveries w w1 (if att then 0 else 1)"
    and "\<And>m a. r = Inr (m, a) \<Longrightarrow> adds_discoveries w w1 0 \<and> a = att \<or> a \<and> \<not> att"
    and "\<And>m a. r = Inr (Some m, a) \<Longrightarrow> fetch_market_by_token_id (w_conn w1) (Some tok) = Inr (Some m)"
    and "\<And>a. r = Inr (None, a) \<Longrightarrow> fetch_market_by_token_id (w_conn w1) (Some tok) = Inr None"
proof -
  consider (err) e where "fetch_market_by_token_id (w_conn w) (Some tok) = Inl e"
    | (hit) m where "fetch_market_by_token_id (w_conn w) (Some tok) = Inr (Some m)"
    | (miss_no) "fetch_market_by_token_id (w_conn w) (Some tok) = Inr None"
        "\<not> (given slug \<and> \<not> att)"
    | (miss_disc) "fetch_market_by_token_id (w_conn w) (Some tok) = Inr None"
        "given slug" "\<not> att"
    by (cases "fetch_market_by_token_id (w_conn w) (Some tok)") auto
  then have all: "same_trades_and_cursor (w_conn w) (w_conn w1)
     \<and> adds_discoveries w w1 (if att then 0 else 1)
     \<and> (\<forall>m a. r = Inr (m, a) \<longrightarrow> adds_discoveries w w1 0 \<and> a = att \<or> a \<and> \<not> att)
     \<and> (\<forall>m a. r = Inr (Some m, a) \<longrightarrow> fetch_market_by_token_id (w_conn w1) (Some tok) = Inr (Some m))
     \<and> (\<forall>a. r = Inr (None, a) \<longrightarrow> fetch_market_by_token_id (w_conn w1) (Some tok) = Inr None)"
  proof cases
    case err
    then show ?thesis using assms by (auto simp: ensure_market_cached_def)
  next
    case hit
    then show ?thesis using assms by (auto simp: ensure_market_cached_def)
  next
    case miss_no
    then show ?thesis using assms by (auto simp: ensure_market_cached_def)
  next
    case miss_disc
    obtain r0 w0 where d: "discover_markets env w slug = (r0, w0)"
      by (cases "discover_markets env w slug")
    note f = discover_markets_frame(1) [OF d] and a = discover_markets_adds [OF d]
    show ?thesis
    proof (cases r0)
      case (Inl e)
      then show ?thesis using assms miss_disc d f a by (auto simp: ensure_market_cached_def)
    next
      case (Inr found)
      then show ?thesis using assms miss_disc d f a
        by (auto simp: ensure_market_cached_def split: sum.splits)
    qed
  qed
  from all show "same_trades_and_cursor (w_conn w) (w_conn w1)" by blast
  from all show "adds_discoveries w w1 (if att then 0 else 1)" by blast
  from all show "\<And>m a. r = Inr (m, a) \<Longrightarrow> adds_discoveries w w1 0 \<and> a = att \<or> a \<and> \<not> att" by blast
  from all show "\<And>m a. r = Inr (Some m, a) \<Longrightarrow> fetch_market_by_token_id (w_conn w1) (Some tok) = Inr (Some m)" by blast
  from all show "\<And>a. r = Inr (None, a) \<Longrightarrow> fetch_market_by_token_id (w_conn w1) (Some tok) = Inr None" by blast
qed

lemma get_block_timestamp_iso_frame:
  "get_block_timestamp_iso env w cache bn = (r, w1) \<Longrightarrow>
     w_conn w1 = w_conn w \<and> w_trace w1 = w_trace w"
  by (auto simp: get_block_timestamp_iso_def split: option.splits sum.splits)

lemma index_log_decode_error:
  "decode_order_filled_log raw = Inl e \<Longrightarrow> index_log env slug raw ls w = (Inl e, w)"
  by (simp add: index_log_def)

lemma index_log_effect:
  assumes "index_log env slug raw ls w = (r, w1)"
  shows "same_trades_and_cursor (w_conn w) (w_conn w1)
     \<and> adds_discoveries w w1 (remaining (ls_attempted ls))
     \<and> (\<forall>ls1. r = Inr ls1 \<longrightarrow>
           (\<exists>k. adds_discoveries w w1 k
                 \<and> k + remaining (ls_attempted ls1) \<le> remaining (ls_attempted ls))
           \<and> (\<exists>t. decode_order_filled_log raw = Inr t
                 \<and> (ls_to_insert ls1 = ls_to_insert ls
                     \<or> (\<exists>tok m. normalize_token_id (t_token_id t) = Inr (Some tok)
                           \<and> fetch_market_by_token_id (w_conn w1) (Some tok) = Inr (Some m)
                           \<and> (\<exists>oc ts. ls_to_insert ls1 = ls_to_insert ls
                                 @ [t\<lparr>t_market_id := Some (mk_id m), t_outcome := Some oc,
                                      t_timestamp := Some ts\<rparr>])))))"
proof (cases "decode_order_filled_log raw")
  case (Inl e)
  then show ?thesis using assms by (auto simp: index_log_def)
next
  case (Inr t)
  note dec = Inr
  show ?thesis
  proof (cases "normalize_token_id (t_token_id t)")
    case (Inl e)
    then show ?thesis using assms dec by (auto simp: index_log_def)
  next
    case (Inr tokopt)
    show ?thesis
    proof (cases tokopt)
      case None
      then show ?thesis using assms dec Inr
        by (auto simp: index_log_def intro!: exI [of _ 0])
    next
      case (Some tok)
      note tok = Inr [unfolded Some]
      obtain r0 w0 where en: "ensure_market_cached env w tok slug (ls_attempted ls) = (r0, w0)"
        by (cases "ensure_market_cached env w tok slug (ls_attempted ls)")
      note ef = ensure_market_cached_effect [OF en]
      have ad: "adds_discoveries w w0 (remaining (ls_attempted ls))"
        using ef(2) by (simp add: remaining_def)
      show ?thesis
      proof (cases r0)
        case (Inl e)
        then show ?thesis using assms dec tok en ef(1) ad by (auto simp: index_log_def)
      next
        case (Inr ma)
        obtain mopt a where ma: "ma = (mopt, a)" by (cases ma)
        have pot: "\<exists>k. adds_discoveries w w0 k \<and> k + remaining a \<le> remaining (ls_attempted ls)"
        proof -
          from ef(3) [of mopt a] Inr ma
          consider "adds_discoveries w w0 0" "a = ls_attempted ls" | "a" "\<not> ls_attempted ls"
            by auto
          then show ?thesis
          proof cases
            case 1
            then show ?thesis by (intro exI [of _ 0]) simp
          next
            case 2
            then show ?thesis using ad by (intro exI [of _ 1]) (simp add: remaining_def)
          qed
        qed
        show ?thesis
        proof (cases mopt)
          case None
          then have "r = Inr (ls\<lparr>ls_attempted := a\<rparr>)" "w1 = w0"
            using assms dec tok en Inr ma by (auto simp: index_log_def)
          then show ?thesis using ef(1) ad pot dec by auto
        next
          case (Some m)
          have hit: "fetch_market_by_token_id (w_conn w0) (Some tok) = Inr (Some m)"
            using ef(4) [of m a] Inr ma Some by simp
          show ?thesis
          proof (cases "classify_outcome tok m")
            case (Inl e)
            then show ?thesis using assms dec tok en \<open>r0 = Inr ma\<close> ma Some ef(1) ad
              by (auto simp: index_log_def)
          next
            case (Inr oc)
            note oc = Inr
            show ?thesis
            proof (cases "t_block_number t")
              case None
              then show ?thesis using assms dec tok en \<open>r0 = Inr ma\<close> ma Some oc ef(1) ad
                by (auto simp: index_log_def)
            next
              case (Some bn)
              note bn = Some
              obtain r2 w2 where ts: "get_block_timestamp_iso env w0 (ls_cache ls) bn = (r2, w2)"
                by (cases "get_block_timestamp_iso env w0 (ls_cache ls) bn")
              from get_block_timestamp_iso_frame [OF ts]
              have same: "w_conn w2 = w_conn w0" "w_trace w2 = w_trace w0" by simp_all
              have ad2: "\<And>k. adds_discoveries w w0 k \<Longrightarrow> adds_discoveries w w2 k"
                by (simp add: adds_discoveries_def same)
              show ?thesis
              proof (cases r2)
                case (Inl e)
                then have "r = Inl e" "w1 = w2"
                  using assms dec tok en \<open>r0 = Inr ma\<close> ma \<open>mopt = Some m\<close> oc bn ts
                  by (auto simp: index_log_def)
                then show ?thesis using ef(1) ad ad2 same by auto
              next
                case (Inr tc)
                obtain tstamp cache where tc: "tc = (tstamp, cache)" by (cases tc)
                have res: "r = Inr \<lparr>ls_cache = cache, ls_attempted = a,
                      ls_to_insert = ls_to_insert ls
                        @ [t\<lparr>t_market_id := Some (mk_id m), t_outcome := Some oc,
                             t_timestamp := Some tstamp\<rparr>]\<rparr>" "w1 = w2"
                  using assms dec tok en \<open>r0 = Inr ma\<close> ma \<open>mopt = Some m\<close> oc bn ts Inr tc
                  by (auto simp: index_log_def)
                from pot obtain k where k: "adds_discoveries w w0 k"
                  "k + remaining a \<le> remaining (ls_attempted ls)" by blast
                have "\<exists>k. adds_discoveries w w1 k
                     \<and> k + remaining a \<le> remaining (ls_attempted ls)"
                  using k ad2 res(2) by blast
                moreover have "fetch_market_by_token_id (w_conn w1) (Some tok) = Inr (Some m)"
                  using hit same res(2) by simp
                ultimately show ?thesis
                  using res ef(1) ad ad2 same dec tok by auto
              qed
            qed
          qed
        qed
      qed
    qed
  qed
qed

lemma index_logs_effect:
  assumes "index_logs env slug logs ls w = (r, w1)"
  shows "same_trades_and_cursor (w_conn w) (w_conn w1)
     \<and> adds_discoveries w w1 (remaining (ls_attempted ls))
     \<and> (\<forall>ls1. r = Inr ls1 \<longrightarrow>
           (\<exists>new. ls_to_insert ls1 = ls_to_insert ls @ new \<and> length new \<le> length logs
                  \<and> list_all (\<lambda>t. t_market_id t \<noteq> None) new)
           \<and> list_all (\<lambda>raw. \<exists>t. decode_order_filled_log raw = Inr t) logs)"
  using assms
proof (induction logs arbitrary: ls w)
  case Nil
  then show ?case by auto
next
  case (Cons raw logs)
  obtain r0 w0 where s: "index_log env slug raw ls w = (r0, w0)"
    by (cases "index_log env slug raw ls w")
  note e = index_log_effect [OF s]
  show ?case
  proof (cases r0)
    case (Inl err)
    then have "r = Inl err" "w1 = w0" using Cons.prems s by auto
    then show ?thesis using e by auto
  next
    case (Inr ls0)
    then have rest: "index_logs env slug logs ls0 w0 = (r, w1)" using Cons.prems s by simp
    note ih = Cons.IH [OF rest]
    from e Inr obtain k where k: "adds_discoveries w w0 k"
      "k + remaining (ls_attempted ls0) \<le> remaining (ls_attempted ls)" by blast
    have tc: "same_trades_and_cursor (w_conn w) (w_conn w1)"
      using e ih by (blast intro: same_trades_and_cursor_trans)
    have ad: "adds_discoveries w w1 (remaining (ls_attempted ls))"
      using adds_discoveries_trans [OF k(1), of w1 "remaining (ls_attempted ls0)"] ih k(2)
      by (blast intro: adds_discoveries_mono)
    from e Inr obtain t where t: "decode_order_filled_log raw = Inr t"
      and step: "ls_to_insert ls0 = ls_to_insert ls
                 \<or> (\<exists>t'. ls_to_insert ls0 = ls_to_insert ls @ [t'] \<and> t_market_id t' \<noteq> None)"
      by fastforce
    have "\<forall>ls1. r = Inr ls1 \<longrightarrow>
           (\<exists>new. ls_to_insert ls1 = ls_to_insert ls @ new \<and> length new \<le> length (raw # logs)
                  \<and> list_all (\<lambda>t. t_market_id t \<noteq> None) new)
           \<and> list_all (\<lambda>raw. \<exists>t. decode_order_filled_log raw = Inr t) (raw # logs)"
    proof (intro allI impI)
      fix ls1 assume r: "r = Inr ls1"
      with ih obtain new where new: "ls_to_insert ls1 = ls_to_insert ls0 @ new"
        "length new \<le> length logs" "list_all (\<lambda>t. t_market_id t \<noteq> None) new"
        and dec: "list_all (\<lambda>raw. \<exists>t. decode_order_filled_log raw = Inr t) logs" by blast
      from step have "\<exists>new'. ls_to_insert ls1 = ls_to_insert ls @ new'
          \<and> length new' \<le> length (raw # logs) \<and> list_all (\<lambda>t. t_market_id t \<noteq> None) new'"
      proof
        assume "ls_to_insert ls0 = ls_to_insert ls"
        then show ?thesis using new by (intro exI [of _ new]) simp
      next
        assume "\<exists>t'. ls_to_insert ls0 = ls_to_insert ls @ [t'] \<and> t_market_id t' \<noteq> None"
        then obtain t' where "ls_to_insert ls0 = ls_to_insert ls @ [t']" "t_market_id t' \<noteq> None"
          by blast
        then show ?thesis using new by (intro exI [of _ "t' # new"]) simp
      qed
      then show "(\<exists>new. ls_to_insert ls1 = ls_to_insert ls @ new \<and> length new \<le> length (raw # logs)
                  \<and> list_all (\<lambda>t. t_market_id t \<noteq> None) new)
           \<and> list_all (\<lambda>raw. \<exists>t. decode_order_filled_log raw = Inr t) (raw # logs)"
        using dec t by simp
    qed
    then show ?thesis using tc ad by blast
  qed
qed

lemma index_logs_undecodable:
  assumes "raw \<in> set logs" and "decode_order_filled_log raw = Inl e"
    and "index_logs env slug logs ls w = (r, w1)"
  shows "\<exists>e'. r = Inl e'"
proof (cases r)
  case (Inl e')
  then show ?thesis by blast
next
  case (Inr ls1)
  with index_logs_effect [OF assms(3)]
  have "list_all (\<lambda>raw. \<exists>t. decode_order_filled_log raw = Inr t) logs" by blast
  then show ?thesis using assms(1,2) by (auto simp: list_all_iff)
qed

lemma index_log_skip:
  assumes "index_log env slug raw ls w = (Inr ls1, w1)"
    and "decode_order_filled_log raw = Inr t"
    and "normalize_token_id (t_token_id t) = Inr (Some tok)"
    and "fetch_market_by_token_id (w_conn w1) (Some tok) = Inr None"
  shows "ls_to_insert ls1 = ls_to_insert ls"
  using index_log_effect [OF assms(1)] assms(2,3,4) by auto

section \<open>The indexing run as a whole\<close>

lemma collect_logs_returns:
  assumes "1 \<le> chunk"
  shows "\<exists>r. collect_logs env a cursor to chunk acc tick = Some r"
proof (induction "nat (to - cursor + 1)" arbitrary: cursor acc tick rule: less_induct)
  case less
  show ?case
  proof (cases "cursor \<le> to")
    case False
    then show ?thesis by (subst collect_logs.simps) simp
  next
    case True
    let ?stop = "min (cursor + chunk - 1) to"
    show ?thesis
    proof (cases "env_get_logs env tick a cursor ?stop")
      case (Inl e)
      then show ?thesis by (subst collect_logs.simps) (simp add: True)
    next
      case (Inr logs)
      have "nat (to - (?stop + 1) + 1) < nat (to - cursor + 1)" using True assms by auto
      from less [OF this] obtain r where
        "collect_logs env a (?stop + 1) to chunk (acc @ logs) (Suc tick) = Some r" by blast
      then show ?thesis by (subst collect_logs.simps) (simp add: True Inr)
    qed
  qed
qed

lemma sql_insert_trade_sync:
  "sql_insert_trade c ts p = Inr c1 \<Longrightarrow> sync_state (live c1) = sync_state (live c)"
  by (rule sql_insert_trade_step(5))

lemma executemany_sync:
  "executemany_insert_trades c ts ps = (r, c1) \<Longrightarrow> sync_state (live c1) = sync_state (live c)"
proof (induction ps arbitrary: c)
  case Nil
  then show ?case by simp
next
  case (Cons p ps)
  show ?case
  proof (cases "sql_insert_trade c ts p")
    case (Inl e)
    then show ?thesis using Cons.prems by simp
  next
    case (Inr c')
    then have "executemany_insert_trades c' ts ps = (r, c1)" using Cons.prems by simp
    from Cons.IH [OF this] sql_insert_trade_sync [OF Inr] show ?thesis by simp
  qed
qed

lemma insert_trades_sync:
  assumes "insert_trades c ts batch = (r, c1)"
  shows "sync_state (live c1) = sync_state (live c)"
proof (cases "batch = []")
  case True
  then show ?thesis using assms by (simp add: insert_trades_def)
next
  case False
  show ?thesis
  proof (cases "trade_tuples batch")
    case (Inl e)
    then show ?thesis using assms False by (simp add: insert_trades_def)
  next
    case (Inr ps)
    obtain r0 c0 where e: "executemany_insert_trades c ts ps = (r0, c0)"
      by (cases "executemany_insert_trades c ts ps")
    from executemany_sync [OF e] show ?thesis
      using assms False Inr e by (cases r0) (auto simp: insert_trades_def Let_def commit_def)
  qed
qed

lemma insert_trades_committed:
  assumes "insert_trades c ts batch = (Inr n, c1)" and "batch \<noteq> []"
  shows "committed c1 = live c1"
  using assms
  by (auto simp: insert_trades_def Let_def commit_def split: sum.splits prod.splits option.splits)

lemma update_sync_state_effect:
  assumes "update_sync_state c ts key v = (r, c1)"
  shows "trades (live c1) = trades (live c)"
    and "\<And>e. r = Inl e \<Longrightarrow> c1 = c"
    and "\<And>u. r = Inr u \<Longrightarrow> get_sync_state c1 key = Some v \<and> committed c1 = live c1"
  using assms
  by (auto simp: update_sync_state_def get_sync_state_def Let_def commit_def split: if_splits)

lemma run_indexer_cases [consumes 1, case_names early loop insert cursor complete]:
  assumes run: "run_indexer env st w fb tb ea na ie inr slug = Some (res, w1)"
  obtains
    (early) e where "res = Inl e"
       "w_trace w1 = w_trace w @ first_discovery slug"
       "same_trades_and_cursor (w_conn w) (w_conn w1)"
  | (loop) e logs ds where "res = Inl e"
       "w_trace w1 = w_trace w @ first_discovery slug @ LogsFetched logs # ds"
       "list_all is_discovery ds" "length ds \<le> 1"
       "same_trades_and_cursor (w_conn w) (w_conn w1)"
  | (insert) e logs ds c3 ts b where "res = Inl e"
       "w_trace w1 = w_trace w @ first_discovery slug @ LogsFetched logs # ds"
       "list_all is_discovery ds" "length ds \<le> 1"
       "list_all decodable logs"
       "same_trades_and_cursor (w_conn w) c3"
       "insert_trades c3 ts b = (Inl e, w_conn w1)"
  | (cursor) e logs ds c3 ts b n where "res = Inl e"
       "w_trace w1 = w_trace w @ first_discovery slug @ LogsFetched logs # ds @ [TradesInserted b]"
       "list_all is_discovery ds" "length ds \<le> 1"
       "list_all decodable logs"
       "same_trades_and_cursor (w_conn w) c3"
       "insert_trades c3 ts b = (Inr n, w_conn w1)"
  | (complete) s logs ds c3 ts b c where "res = Inr s"
       "w_trace w1 = w_trace w @ first_discovery slug
           @ LogsFetched logs # ds @ [TradesInserted b, CursorWritten ''trade_sync'' tb]"
       "list_all is_discovery ds" "length ds \<le> 1"
       "list_all decodable logs"
       "same_trades_and_cursor (w_conn w) c3"
       "insert_trades c3 ts b = (Inr (s_inserted_trades s), c)"
       "trades (live (w_conn w1)) = trades (live c)"
       "get_sync_state (w_conn w1) ''trade_sync'' = Some tb"
       "committed (w_conn w1) = live (w_conn w1)"
       "s_from_block s = fb" "s_to_block s = tb"
proof -
  obtain r0 w0 where d: "discover_markets env w slug = (r0, w0)"
    by (cases "discover_markets env w slug")
  note df = discover_markets_frame [OF d]
  have tr0: "w_trace w0 = w_trace w @ first_discovery slug"
    using df(2) by (simp add: first_discovery_def)
  show ?thesis
  proof (cases r0)
    case (Inl e)
    then have "Some (res, w1) = Some (Inl e, w0)"
      using run by (simp add: run_indexer_def d)
    then have "res = Inl e" "w1 = w0" by simp_all
    then show ?thesis using tr0 df(1) by (intro early) simp_all
  next
    case (Inr dres)
    note dres = Inr
    show ?thesis
    proof (cases "exchange_addresses env ea na ie inr")
      case (Inl e)
      then have "Some (res, w1) = Some (Inl e, w0)"
        using run by (simp add: run_indexer_def d dres)
      then have "res = Inl e" "w1 = w0" by simp_all
      then show ?thesis using tr0 df(1) by (intro early) simp_all
    next
      case (Inr addrs)
      note addrs = Inr
      show ?thesis
      proof (cases "addrs = []")
        case True
        then have "Some (res, w1) = Some (Inl ValueError, w0)"
          using run by (simp add: run_indexer_def d dres addrs)
        then have "res = Inl ValueError" "w1 = w0" by simp_all
        then show ?thesis using tr0 df(1) by (intro early) simp_all
      next
        case False
        note ne = False
        obtain cl where cl: "collect_logs env addrs fb tb (max 1 (st_log_chunk_size st)) [] (w_tick w0) = Some cl"
          using collect_logs_returns [of "max 1 (st_log_chunk_size st)" env addrs fb tb "[]" "w_tick w0"]
          by auto
        obtain rl tick where rl: "cl = (rl, tick)" by (cases cl)
        show ?thesis
        proof (cases rl)
          case (Inl e)
          then have "Some (res, w1) = Some (Inl e, w0\<lparr>w_tick := tick\<rparr>)"
            using run by (simp add: run_indexer_def d dres addrs ne cl rl)
          then have "res = Inl e" "w1 = w0\<lparr>w_tick := tick\<rparr>" by simp_all
          then show ?thesis using tr0 df(1) by (intro early) simp_all
        next
          case (Inr logs)
          note logs = Inr
          define w2 where "w2 = w0\<lparr>w_tick := tick, w_trace := w_trace w0 @ [LogsFetched logs]\<rparr>"
          define ls0 where "ls0 = \<lparr>ls_cache = Map.empty, ls_attempted = False, ls_to_insert = []\<rparr>"
          obtain r3 w3 where il: "index_logs env slug logs ls0 w2 = (r3, w3)"
            by (cases "index_logs env slug logs ls0 w2")
          have run3: "(case (r3, w3) of
             (Inl e, w3) \<Rightarrow> Some (Inl e, w3)
           | (Inr ls, w3) \<Rightarrow>
             (case insert_trades (w_conn w3) (env_current_timestamp env (w_tick w3)) (ls_to_insert ls) of
                (Inl e, c) \<Rightarrow> Some (Inl e, w3\<lparr>w_conn := c, w_tick := Suc (w_tick w3)\<rparr>)
              | (Inr inserted, c) \<Rightarrow>
             (case update_sync_state c (env_current_timestamp env (Suc (w_tick w3))) ''trade_sync'' tb of
                (Inl e, c1) \<Rightarrow>
                  Some (Inl e, w3\<lparr>w_conn := c1, w_tick := Suc (Suc (w_tick w3)),
                           w_trace := w_trace w3 @ [TradesInserted (ls_to_insert ls)]\<rparr>)
              | (Inr u, c1) \<Rightarrow>
                  Some (Inr \<lparr>s_from_block = fb,
                     s_to_block = tb,
                     s_inserted_trades = inserted,
                     s_market_slug = slug,
                     s_market_id = summary_market_id (ls_to_insert ls),
                     s_sample_trades = take 5 (ls_to_insert ls),
                     s_db_path = st_db_path st,
                     s_market_discovery = dres\<rparr>,
                w3\<lparr>w_conn := c1, w_tick := Suc (Suc (w_tick w3)),
                    w_trace := w_trace w3 @ [TradesInserted (ls_to_insert ls),
                                             CursorWritten ''trade_sync'' tb]\<rparr>)))) = Some (res, w1)"
          proof -
            have cl': "collect_logs env addrs fb tb (max 1 (st_log_chunk_size st)) [] (w_tick w0)
                         = Some (Inr logs, tick)"
              using cl rl logs by simp
            have il': "index_logs env slug logs
                 \<lparr>ls_cache = Map.empty, ls_attempted = False, ls_to_insert = []\<rparr>
                 (w0\<lparr>w_tick := tick, w_trace := w_trace w0 @ [LogsFetched logs]\<rparr>) = (r3, w3)"
              using il by (simp only: w2_def ls0_def)
            show ?thesis
              using run by (simp only: run_indexer_def d dres addrs cl' il' ne
                  prod.case sum.case option.case if_False)
          qed
          have ie: "same_trades_and_cursor (w_conn w2) (w_conn w3)"
            "adds_discoveries w2 w3 (remaining (ls_attempted ls0))"
            "\<And>ls1. r3 = Inr ls1 \<Longrightarrow>
                list_all (\<lambda>raw. \<exists>t. decode_order_filled_log raw = Inr t) logs"
            using index_logs_effect [OF il] by blast+
          have "remaining (ls_attempted ls0) = 1" by (simp add: remaining_def ls0_def)
          then obtain ds where ds: "w_trace w3 = w_trace w2 @ ds" "list_all is_discovery ds"
            "length ds \<le> 1"
            using ie(2) unfolding adds_discoveries_def by auto
          have tr3: "w_trace w3 = w_trace w @ first_discovery slug @ LogsFetched logs # ds"
            using ds(1) tr0 by (simp add: w2_def)
          have "w_conn w2 = w_conn w0" by (simp add: w2_def)
          then have tc3: "same_trades_and_cursor (w_conn w) (w_conn w3)"
            using ie(1) df(1) same_trades_and_cursor_trans by metis
          show ?thesis
          proof (cases r3)
            case (Inl e)
            then have "res = Inl e" "w1 = w3" using run3 by simp_all
            then show ?thesis using tr3 tc3 ds(2,3) by (intro loop) simp_all
          next
            case (Inr ls)
            note ls = Inr
            have dec: "list_all decodable logs"
              using ie(3) [OF ls] unfolding decodable_def .
            define b where "b = ls_to_insert ls"
            define ts where "ts = env_current_timestamp env (w_tick w3)"
            obtain r4 c where it: "insert_trades (w_conn w3) ts b = (r4, c)"
              by (cases "insert_trades (w_conn w3) ts b")
            define ts1 where "ts1 = env_current_timestamp env (Suc (w_tick w3))"
            have run4: "(case (r4, c) of
                (Inl e, c) \<Rightarrow> Some (Inl e, w3\<lparr>w_conn := c, w_tick := Suc (w_tick w3)\<rparr>)
              | (Inr inserted, c) \<Rightarrow>
             (case update_sync_state c ts1 ''trade_sync'' tb of
                (Inl e, c1) \<Rightarrow>
                  Some (Inl e, w3\<lparr>w_conn := c1, w_tick := Suc (Suc (w_tick w3)),
                           w_trace := w_trace w3 @ [TradesInserted b]\<rparr>)
              | (Inr u, c1) \<Rightarrow>
                  Some (Inr \<lparr>s_from_block = fb,
                     s_to_block = tb,
                     s_inserted_trades = inserted,
                     s_market_slug = slug,
                     s_market_id = summary_market_id b,
                     s_sample_trades = take 5 b,
                     s_db_path = st_db_path st,
                     s_market_discovery = dres\<rparr>,
                w3\<lparr>w_conn := c1, w_tick := Suc (Suc (w_tick w3)),
                    w_trace := w_trace w3 @ [TradesInserted b,
                                             CursorWritten ''trade_sync'' tb]\<rparr>))) = Some (res, w1)"
              using run3 it unfolding ls b_def ts_def ts1_def by simp
            show ?thesis
            proof (cases r4)
              case (Inl e)
              then have r: "res = Inl e" and w: "w1 = w3\<lparr>w_conn := c, w_tick := Suc (w_tick w3)\<rparr>"
                using run4 by simp_all
              have 1: "w_trace w1 = w_trace w @ first_discovery slug @ LogsFetched logs # ds"
                using w tr3 by simp
              have 2: "insert_trades (w_conn w3) ts b = (Inl e, w_conn w1)"
                using it Inl w by simp
              show ?thesis by (rule insert [OF r 1 ds(2) ds(3) dec tc3 2])
            next
              case (Inr n)
              note n = Inr
              obtain r5 c1 where us: "update_sync_state c ts1 ''trade_sync'' tb = (r5, c1)"
                by (cases "update_sync_state c ts1 ''trade_sync'' tb")
              note ue = update_sync_state_effect [OF us]
              have it': "insert_trades (w_conn w3) ts b = (Inr n, c)" using it n by simp
              show ?thesis
              proof (cases r5)
                case (Inl e)
                then have r: "res = Inl e"
                  and w: "w1 = w3\<lparr>w_conn := c1, w_tick := Suc (Suc (w_tick w3)),
                           w_trace := w_trace w3 @ [TradesInserted b]\<rparr>"
                  using run4 n us by simp_all
                have c1: "c1 = c" using ue(2) Inl by simp
                have 1: "w_trace w1 = w_trace w @ first_discovery slug
                          @ LogsFetched logs # ds @ [TradesInserted b]"
                  using w tr3 by simp
                have 2: "insert_trades (w_conn w3) ts b = (Inr n, w_conn w1)"
                  using it' w c1 by simp
                show ?thesis by (rule cursor [OF r 1 ds(2) ds(3) dec tc3 2])
              next
                case (Inr u)
                define s where "s = \<lparr>s_from_block = fb,
                     s_to_block = tb,
                     s_inserted_trades = n,
                     s_market_slug = slug,
                     s_market_id = summary_market_id b,
                     s_sample_trades = take 5 b,
                     s_db_path = st_db_path st,
                     s_market_discovery = dres\<rparr>"
                have r: "res = Inr s"
                  and w: "w1 = w3\<lparr>w_conn := c1, w_tick := Suc (Suc (w_tick w3)),
                           w_trace := w_trace w3 @ [TradesInserted b,
                                             CursorWritten ''trade_sync'' tb]\<rparr>"
                  using run4 n us Inr by (simp_all add: s_def)
                have 1: "w_trace w1 = w_trace w @ first_discovery slug
                          @ LogsFetched logs # ds @ [TradesInserted b, CursorWritten ''trade_sync'' tb]"
                  using w tr3 by simp
                have 2: "insert_trades (w_conn w3) ts b = (Inr (s_inserted_trades s), c)"
                  using it' by (simp add: s_def)
                have c1: "w_conn w1 = c1" using w by simp
                have 3: "trades (live (w_conn w1)) = trades (live c)"
                  using ue(1) c1 by simp
                have 4: "get_sync_state (w_conn w1) ''trade_sync'' = Some tb"
                  "committed (w_conn w1) = live (w_conn w1)"
                  using ue(3) [OF Inr] c1 by simp_all
                have 5: "s_from_block s = fb" "s_to_block s = tb" by (simp_all add: s_def)
                show ?thesis by (rule complete [OF r 1 ds(2) ds(3) dec tc3 2 3 4 5])
              qed
            qed
          qed
        qed
      qed
    qed
  qed
qed


lemma run_indexer_returns:
  "\<exists>r. run_indexer env st w fb tb ea na ie inr slug = Some r"
proof -
  have c: "collect_logs env a fb tb (max 1 (st_log_chunk_size st)) [] tick \<noteq> None" for a tick
    using collect_logs_returns [of "max 1 (st_log_chunk_size st)" env a fb tb "[]" tick] by auto
  show ?thesis
    unfolding run_indexer_def
    by (simp add: c split: prod.splits sum.splits option.splits)
qed


end
